theory Spec2Isabelle
  imports Complex_Main "HOL-Library.AList"
begin

section \<open>Values and dictionaries\<close>

text \<open>
  The namelist values of \<^verbatim>\<open>superrotation_nzforcing.py\<close> are Python ints, floats, bools,
  strings and lists of these. A float literal is carried as the real number it is written
  as; the script does no arithmetic on any of them.
\<close>

datatype pyval =
    PInt int
  | PFloat real
  | PBool bool
  | PStr string
  | PList "pyval list"

text \<open>
  A Python dict keeps its keys unique and in insertion order: an association list whose
  keys are distinct. A section maps parameter names to values; a namelist maps section
  names to section objects. The docstring of the class asks for ``a dictionary of
  dictionaries'', so the entries of a namelist are references to section objects.
\<close>

type_synonym addr = nat
type_synonym nml_section = "(string \<times> pyval) list"
type_synonym nml_dict = "(string \<times> addr) list"

text \<open>\<^verbatim>\<open>d.update(other)\<close>: \<^verbatim>\<open>d[k] = v\<close> for every item of \<^verbatim>\<open>other\<close>, in order.\<close>

definition dict_update :: "('k \<times> 'v) list \<Rightarrow> ('k \<times> 'v) list \<Rightarrow> ('k \<times> 'v) list" where
  "dict_update d other = fold (\<lambda>(k, v). AList.update k v) other d"

section \<open>The diagnostic table\<close>

text \<open>
  Modelled from the spec: the class \<^verbatim>\<open>DiagTable\<close> is imported from the framework and is not
  part of the script. The spec describes a diagnostic spec as an ordered list of
  (module, field name, averaging flag) triples under a named output file with a cadence
  (value and unit). The table is modelled as the ordered registrations it has received.
  A field registered without \<^verbatim>\<open>time_avg\<close> keeps \<open>None\<close>: the script leaves the flag to the
  framework's default there.
\<close>

record file_reg =
  file_name :: string
  file_freq :: int
  file_units :: string
  file_time_units :: string

record field_reg =
  fld_module :: string
  fld_name :: string
  fld_time_avg :: "bool option"

record DiagTable =
  dt_files :: "file_reg list"
  dt_fields :: "field_reg list"

definition DiagTable_new :: DiagTable where
  "DiagTable_new = \<lparr>dt_files = [], dt_fields = []\<rparr>"

definition add_file :: "string \<Rightarrow> int \<Rightarrow> string \<Rightarrow> string \<Rightarrow> DiagTable \<Rightarrow> DiagTable" where
  "add_file name freq units time_units diag =
     diag\<lparr>dt_files := dt_files diag @
       [\<lparr>file_name = name, file_freq = freq, file_units = units,
         file_time_units = time_units\<rparr>]\<rparr>"

definition add_field :: "string \<Rightarrow> string \<Rightarrow> bool option \<Rightarrow> DiagTable \<Rightarrow> DiagTable" where
  "add_field module_name name time_avg diag =
     diag\<lparr>dt_fields := dt_fields diag @
       [\<lparr>fld_module = module_name, fld_name = name, fld_time_avg = time_avg\<rparr>]\<rparr>"

text \<open>\<^verbatim>\<open>MatsunoGillExperiment.build_diag_table(cls, output_freq, output_avg)\<close>, lines 69-89.\<close>

definition build_diag_table :: "int \<Rightarrow> bool \<Rightarrow> DiagTable" where
  "build_diag_table output_freq output_avg =
     (let diag = DiagTable_new;
          diag = add_file ''atmos_monthly'' output_freq ''days'' ''days'' diag;
          diag = add_field ''dynamics'' ''ps'' (Some output_avg) diag;
          diag = add_field ''dynamics'' ''bk'' None diag;
          diag = add_field ''dynamics'' ''pk'' None diag;
          diag = add_field ''dynamics'' ''ucomp'' (Some output_avg) diag;
          diag = add_field ''dynamics'' ''vcomp'' (Some output_avg) diag;
          diag = add_field ''dynamics'' ''temp'' (Some output_avg) diag;
          diag = add_field ''dynamics'' ''vor'' (Some output_avg) diag;
          diag = add_field ''dynamics'' ''div'' (Some output_avg) diag;
          diag = add_field ''hs_forcing'' ''q_eqf'' (Some output_avg) diag
      in diag)"

text \<open>The module and field name of a registration, without its averaging flag.\<close>

definition field_id :: "field_reg \<Rightarrow> string \<times> string" where
  "field_id r = (fld_module r, fld_name r)"

text \<open>A registration with its averaging flag, where the script passed one, set to \<open>b\<close>.\<close>

definition with_avg :: "bool \<Rightarrow> field_reg \<Rightarrow> field_reg" where
  "with_avg b r = r\<lparr>fld_time_avg := map_option (\<lambda>_. b) (fld_time_avg r)\<rparr>"

section \<open>The store of dict objects\<close>

text \<open>
  Python dicts are objects: \<^verbatim>\<open>namelist[key] = namelist_mod[key]\<close> stores a reference to the
  caller's section, and \<^verbatim>\<open>namelist[key].update(...)\<close> changes a section in place. The store
  keeps the two kinds of dict the script handles, each addressed by its index: namelists
  (section name to section reference) and sections (parameter name to value). Allocation
  appends; nothing is ever freed. A reference of the script always points to an object that
  exists, which the theorems state as \<open>valid_override\<close>.
\<close>

record heap =
  tops :: "nml_dict list"
  secs :: "nml_section list"

text \<open>
  Evaluating a dict display whose values are dict displays, as in the body of
  \<^verbatim>\<open>default_namelist\<close> (lines 98-155) and in the call of line 161: every evaluation allocates
  one new object per section and one for the namelist, and returns the address of the
  latter. \<open>lit\<close> is the display, section by section.
\<close>

definition new_namelist :: "(string \<times> nml_section) list \<Rightarrow> heap \<Rightarrow> addr \<times> heap" where
  "new_namelist lit h =
     (length (tops h),
      \<lparr>tops = tops h @ [zip (map fst lit) [length (secs h) ..< length (secs h) + length lit]],
        secs = secs h @ map snd lit\<rparr>)"

text \<open>
  The loop of lines 59-63, over the items of \<^verbatim>\<open>namelist_mod\<close> in their order:
  \<^verbatim>\<open>
    for key in namelist_mod:
        if key in namelist:
            namelist[key].update(namelist_mod[key])
        else:
            namelist[key] = namelist_mod[key]
  \<close>
  \<open>namelist\<close> is the address of the namelist being built, \<open>src\<close> the section object that
  \<^verbatim>\<open>namelist_mod[key]\<close> refers to. The namelist being built is a new object, so the loop
  never changes the dict it iterates over, and \<^verbatim>\<open>namelist_mod[key]\<close> is the entry the
  iteration is at.
\<close>

fun merge_loop :: "addr \<Rightarrow> (string \<times> addr) list \<Rightarrow> heap \<Rightarrow> heap" where
  "merge_loop namelist [] h = h"
| "merge_loop namelist ((key, src) # rest) h =
     merge_loop namelist rest
       (case map_of (tops h ! namelist) key of
          Some dst \<Rightarrow> h\<lparr>secs := (secs h)[dst := dict_update (secs h ! dst) (secs h ! src)]\<rparr>
        | None \<Rightarrow> h\<lparr>tops := (tops h)[namelist := AList.update key src (tops h ! namelist)]\<rparr>)"

text \<open>
  Lines 58-63: \<^verbatim>\<open>namelist = self.default_namelist()\<close> followed by the loop. \<open>lit\<close> is what
  \<^verbatim>\<open>default_namelist()\<close> returns (the constructor passes \<open>default_namelist\<close>, below) and
  \<open>namelist_mod\<close> the address of the override mapping.
\<close>

definition merge_namelist :: "(string \<times> nml_section) list \<Rightarrow> addr \<Rightarrow> heap \<Rightarrow> addr \<times> heap" where
  "merge_namelist lit namelist_mod h =
     (let (namelist, h1) = new_namelist lit h
      in (namelist, merge_loop namelist (tops h1 ! namelist_mod) h1))"

section \<open>The default namelist\<close>

text \<open>
  \<^verbatim>\<open>MatsunoGillExperiment.default_namelist(cls)\<close>, lines 91-156: the dict display it returns.
  \<^verbatim>\<open>200.e2\<close> and \<^verbatim>\<open>1.0e5\<close> are written with a power of ten.
\<close>

definition default_namelist :: "(string \<times> nml_section) list" where
  "default_namelist =
     [(''main_nml'',
         [(''dt_atmos'', PInt 300),
          (''days'', PInt 1800),
          (''current_time'', PInt 0),
          (''calendar'', PStr ''no_calendar'')]),
      (''atmosphere_nml'',
         [(''idealized_moist_model'', PBool False)]),
      (''spectral_dynamics_nml'',
         [(''damping_order'', PInt 4),
          (''water_correction_limit'', PFloat (200 * 10 ^ 2)),
          (''reference_sea_level_press'', PFloat (1.0 * 10 ^ 5)),
          (''valid_range_t'', PList [PFloat 100, PFloat 800]),
          (''initial_sphum'', PFloat 0.0),
          (''vert_coord_option'', PStr ''uneven_sigma''),
          (''scale_heights'', PFloat 6.0),
          (''exponent'', PFloat 7.5),
          (''surf_res'', PFloat 0.5)]),
      (''hs_forcing_nml'',
         [(''t_zero'', PFloat 315),
          (''t_strat'', PFloat 200),
          (''delh'', PFloat 40),
          (''delv'', PFloat 10),
          (''eps'', PFloat 0),
          (''sigma_b'', PFloat 0.7),
          (''ka'', PFloat (- 40)),
          (''ks'', PFloat (- 4)),
          (''kf'', PFloat (- 1)),
          (''do_conserve_energy'', PBool True)]),
      (''atf_forcing_nml'',
         [(''q0atf'', PFloat 0.0)]),
      (''diag_manager_nml'',
         [(''mix_snapshot_average_fields'', PBool False)]),
      (''fms_nml'',
         [(''domains_stack_size'', PInt 600000)]),
      (''fms_io_nml'',
         [(''threading_write'', PStr ''single''),
          (''fileset_write'', PStr ''single'')])]"

section \<open>The framework and the experiment handle\<close>

text \<open>
  Modelled from the spec: the class \<^verbatim>\<open>Experiment\<close> and the wrapper \<^verbatim>\<open>Namelist\<close> are imported
  from the framework and are not part of the script. The spec's experiment handle ``binds a
  name, a compiled-code reference, the configuration mapping, and the diagnostic spec''. The
  two fields the script assigns are \<open>None\<close> until it does; \<^verbatim>\<open>Namelist(namelist)\<close> is taken
  to hold the dict it is given, so the handle keeps the address of the merged namelist.
  A wrapper that copied the dict instead would attach the same mapping.
\<close>

record 'c Experiment =
  exp_name :: string
  exp_codebase :: 'c
  exp_diag_table :: "DiagTable option"
  exp_namelist :: "addr option"

text \<open>
  What the script does that the outside can see, in order: the calls into the framework and
  the two assignments that attach configuration to a handle (named by the experiment's name).
  \<open>Run\<close> carries the segment index, \<^verbatim>\<open>num_cores\<close>, \<^verbatim>\<open>use_restart\<close> and \<^verbatim>\<open>mpirun_opts\<close>.
\<close>

datatype 'c event =
    Compile 'c
  | ExperimentInit string 'c
  | AttachDiagTable string DiagTable
  | AttachNamelist string addr
  | SetResolution string "pyval list"
  | Run string int int bool string

text \<open>
  The state of the process: the store, the state \<open>'w\<close> of the framework and of everything
  behind it (compiled code, directories, the parts of a handle the framework owns), and the
  trace of events so far.
\<close>

record ('w, 'c) state =
  mem :: heap
  world :: 'w
  trace :: "'c event list"

text \<open>
  The framework methods the script calls are not part of the script; the spec says only that
  they are external and may fail with ``whatever exception the external framework
  produces''. They are parameters of the model: each returns \<open>Some e\<close> when it raises \<open>e\<close>,
  and the state it leaves behind either way. \<^verbatim>\<open>codebase.compile()\<close> and
  \<^verbatim>\<open>Experiment.__init__(self, name, codebase)\<close> are given no dict of the script and act on the
  framework state; \<^verbatim>\<open>set_resolution\<close> and \<^verbatim>\<open>run\<close> receive the handle, which holds the namelist,
  and may change the store as well.
\<close>

record ('w, 'e, 'c) framework =
  compile :: "'c \<Rightarrow> 'w \<Rightarrow> 'e option \<times> 'w"
  Experiment_init :: "string \<Rightarrow> 'c \<Rightarrow> 'w \<Rightarrow> 'e option \<times> 'w"
  set_resolution :: "'c Experiment \<Rightarrow> pyval list \<Rightarrow> heap \<times> 'w \<Rightarrow> 'e option \<times> heap \<times> 'w"
  run :: "'c Experiment \<Rightarrow> int \<Rightarrow> int \<Rightarrow> bool \<Rightarrow> string \<Rightarrow> heap \<times> 'w \<Rightarrow> 'e option \<times> heap \<times> 'w"

text \<open>A call into the framework: the event is recorded and the call made.\<close>

definition call_world ::
  "'c event \<Rightarrow> ('w \<Rightarrow> 'e option \<times> 'w) \<Rightarrow> ('w, 'c) state \<Rightarrow> 'e option \<times> ('w, 'c) state" where
  "call_world ev f s =
     (case f (world s) of (r, w) \<Rightarrow> (r, s\<lparr>world := w, trace := trace s @ [ev]\<rparr>))"

definition call_handle ::
  "'c event \<Rightarrow> (heap \<times> 'w \<Rightarrow> 'e option \<times> heap \<times> 'w) \<Rightarrow> ('w, 'c) state
     \<Rightarrow> 'e option \<times> ('w, 'c) state" where
  "call_handle ev f s =
     (case f (mem s, world s) of
        (r, h, w) \<Rightarrow> (r, s\<lparr>mem := h, world := w, trace := trace s @ [ev]\<rparr>))"

section \<open>The constructor\<close>

text \<open>
  The default arguments of \<^verbatim>\<open>__init__\<close> (lines 42-43) are evaluated once, when the class
  statement runs: \<^verbatim>\<open>DryCodeBase.from_directory(GFDL_BASE)\<close>, whose value \<open>cb\<close> the framework
  gives, and one dict \<^verbatim>\<open>{}\<close>, shared by every call that omits \<^verbatim>\<open>namelist_mod\<close>.
\<close>

record 'c class_env =
  codebase_default :: 'c
  namelist_mod_default :: addr

definition class_def :: "'c \<Rightarrow> heap \<Rightarrow> 'c class_env \<times> heap" where
  "class_def cb h =
     (\<lparr>codebase_default = cb, namelist_mod_default = length (tops h)\<rparr>,
      h\<lparr>tops := tops h @ [[]]\<rparr>)"

text \<open>An argument of a call is \<open>None\<close> when the call omits it.\<close>

definition codebase_arg :: "'c class_env \<Rightarrow> 'c option \<Rightarrow> 'c" where
  "codebase_arg env codebase = (case codebase of None \<Rightarrow> codebase_default env | Some c \<Rightarrow> c)"

definition output_freq_arg :: "int option \<Rightarrow> int" where
  "output_freq_arg output_freq = (case output_freq of None \<Rightarrow> 90 | Some f \<Rightarrow> f)"

definition namelist_mod_arg :: "'c class_env \<Rightarrow> addr option \<Rightarrow> addr" where
  "namelist_mod_arg env namelist_mod =
     (case namelist_mod of None \<Rightarrow> namelist_mod_default env | Some m \<Rightarrow> m)"

text \<open>
  \<^verbatim>\<open>MatsunoGillExperiment.__init__\<close>, lines 45-64: everything before the resolution override.
  The result is \<open>Inl e\<close> when a call raised \<open>e\<close>, which ends the constructor there, and
  \<open>Inr self\<close> otherwise; the state reached is returned in both cases.
\<close>

definition MatsunoGillExperiment_init_config ::
  "('w, 'e, 'c) framework \<Rightarrow> 'c class_env \<Rightarrow> string \<Rightarrow> 'c option \<Rightarrow> int option \<Rightarrow> addr option
     \<Rightarrow> ('w, 'c) state \<Rightarrow> ('e + 'c Experiment) \<times> ('w, 'c) state" where
  "MatsunoGillExperiment_init_config fw env name codebase output_freq namelist_mod s =
     (let codebase = codebase_arg env codebase;
          output_freq = output_freq_arg output_freq;
          namelist_mod = namelist_mod_arg env namelist_mod
      in case call_world (Compile codebase) (compile fw codebase) s of
           (Some e, s) \<Rightarrow> (Inl e, s)
         | (None, s) \<Rightarrow>
            (case call_world (ExperimentInit name codebase) (Experiment_init fw name codebase) s of
               (Some e, s) \<Rightarrow> (Inl e, s)
             | (None, s) \<Rightarrow>
                (let self = \<lparr>exp_name = name, exp_codebase = codebase,
                              exp_diag_table = None, exp_namelist = None\<rparr>;
                     diag_table = build_diag_table output_freq False;
                     self = self\<lparr>exp_diag_table := Some diag_table\<rparr>;
                     s = s\<lparr>trace := trace s @ [AttachDiagTable name diag_table]\<rparr>;
                     (namelist, h) = merge_namelist default_namelist namelist_mod (mem s);
                     self = self\<lparr>exp_namelist := Some namelist\<rparr>;
                     s = s\<lparr>mem := h, trace := trace s @ [AttachNamelist name namelist]\<rparr>
                 in (Inr self, s))))"

text \<open>
  \<^verbatim>\<open>MatsunoGillExperiment.__init__\<close> as a whole, lines 45-67. \<open>kwargs\<close> is the dict of the
  remaining keyword arguments; the value of \<^verbatim>\<open>resolution\<close> is a sequence, which line 67
  unpacks into the arguments of \<^verbatim>\<open>set_resolution\<close>.
\<close>

definition MatsunoGillExperiment_init ::
  "('w, 'e, 'c) framework \<Rightarrow> 'c class_env \<Rightarrow> string \<Rightarrow> 'c option \<Rightarrow> int option \<Rightarrow> addr option
     \<Rightarrow> (string \<rightharpoonup> pyval list) \<Rightarrow> ('w, 'c) state \<Rightarrow> ('e + 'c Experiment) \<times> ('w, 'c) state" where
  "MatsunoGillExperiment_init fw env name codebase output_freq namelist_mod kwargs s =
     (case MatsunoGillExperiment_init_config fw env name codebase output_freq namelist_mod s of
        (Inl e, s) \<Rightarrow> (Inl e, s)
      | (Inr self, s) \<Rightarrow>
         (case kwargs ''resolution'' of
            None \<Rightarrow> (Inr self, s)
          | Some resolution \<Rightarrow>
             (case call_handle (SetResolution name resolution)
                     (set_resolution fw self resolution) s of
                (Some e, s) \<Rightarrow> (Inl e, s)
              | (None, s) \<Rightarrow> (Inr self, s))))"

section \<open>The script\<close>

definition NCORES :: int where
  "NCORES = 16"

definition RESOLUTION :: "pyval list" where
  "RESOLUTION = [PStr ''T42'', PInt 25]"

text \<open>\<^verbatim>\<open>sep.join(xs)\<close>.\<close>

fun str_join :: "string \<Rightarrow> string list \<Rightarrow> string" where
  "str_join sep [] = []"
| "str_join sep [x] = x"
| "str_join sep (x # y # ys) = x @ sep @ str_join sep (y # ys)"

text \<open>The dict display passed as \<^verbatim>\<open>namelist_mod\<close> at lines 161-163.\<close>

definition exp_namelist_mod :: "(string \<times> nml_section) list" where
  "exp_namelist_mod =
     [(''atf_forcing_nml'',
         [(''q0atf'', PFloat 1.0), (''cfatf'', PInt 0), (''katf'', PInt 2),
          (''dphiatf'', PFloat 10.0)]),
      (''main_nml'', [(''days'', PInt 18000)])]"

text \<open>
  Lines 20-164 before the constructor runs: the class statement binds the default arguments
  (the default code base, taken from the framework, and one dict \<^verbatim>\<open>{}\<close>), and the call at
  line 159 builds its \<^verbatim>\<open>namelist_mod\<close> dict.
\<close>

definition script_setup ::
  "'c \<Rightarrow> ('w, 'c) state \<Rightarrow> 'c class_env \<times> addr \<times> ('w, 'c) state" where
  "script_setup from_directory s =
     (let (env, h) = class_def from_directory (mem s);
          (namelist_mod, h) = new_namelist exp_namelist_mod h
      in (env, namelist_mod, s\<lparr>mem := h\<rparr>))"

text \<open>
  The script as a whole, lines 159-169. \<open>is_main\<close> is \<^verbatim>\<open>__name__ == '__main__'\<close> and \<open>argv\<close>
  is \<^verbatim>\<open>sys.argv\<close>.
\<close>

definition script ::
  "('w, 'e, 'c) framework \<Rightarrow> 'c \<Rightarrow> bool \<Rightarrow> string list \<Rightarrow> ('w, 'c) state
     \<Rightarrow> 'e option \<times> ('w, 'c) state" where
  "script fw from_directory is_main argv s =
     (let (env, namelist_mod, s) = script_setup from_directory s
      in case MatsunoGillExperiment_init fw env ''superrotation_nzforcing_q1_long'' None
                (Some 1000) (Some namelist_mod) [''resolution'' \<mapsto> RESOLUTION] s of
           (Inl e, s) \<Rightarrow> (Some e, s)
         | (Inr exp', s) \<Rightarrow>
            if is_main
            then call_handle
                   (Run (exp_name exp') 1 NCORES False (str_join '' '' (drop 1 argv)))
                   (run fw exp' 1 NCORES False (str_join '' '' (drop 1 argv))) s
            else (None, s))"

section \<open>Notions used by the theorems\<close>

text \<open>The namelist at an address, read through the store: its sections with their contents.\<close>

definition namelist_of :: "heap \<Rightarrow> addr \<Rightarrow> (string \<times> nml_section) list" where
  "namelist_of h a = map (\<lambda>(k, x). (k, secs h ! x)) (tops h ! a)"

text \<open>
  The override mapping at \<open>m\<close> is a dict of dicts of the store: it exists, its keys are
  unique, and its entries refer to sections that exist.
\<close>

definition valid_override :: "heap \<Rightarrow> addr \<Rightarrow> bool" where
  "valid_override h m \<longleftrightarrow>
     m < length (tops h) \<and> distinct (map fst (tops h ! m)) \<and>
     list_all (\<lambda>(k, a). a < length (secs h)) (tops h ! m)"

text \<open>
  The merge policy in the words of the spec, on values: ``for each top-level section key in
  the override mapping, if the section exists in the defaults, merge overriding keys into it
  (shallow update); otherwise insert the section wholesale''. The merge of the source is
  compared with it in \<open>merge_namelist_refines\<close>.
\<close>

definition merge_spec ::
  "(string \<times> nml_section) list \<Rightarrow> (string \<times> nml_section) list \<Rightarrow> (string \<times> nml_section) list" where
  "merge_spec defaults override =
     map (\<lambda>(k, d). (k, case map_of override k of Some other \<Rightarrow> dict_update d other | None \<Rightarrow> d))
       defaults
     @ filter (\<lambda>(k, other). map_of defaults k = None) override"

text \<open>
  What one iteration of the loop does to the sections, when \<open>T\<close> is the namelist as it was
  before the loop.
\<close>

definition sec_step :: "nml_dict \<Rightarrow> string \<times> addr \<Rightarrow> nml_section list \<Rightarrow> nml_section list" where
  "sec_step T = (\<lambda>(k, src) S. case map_of T k of
       Some dst \<Rightarrow> S[dst := dict_update (S ! dst) (S ! src)] | None \<Rightarrow> S)"

text \<open>Every dict object of \<open>h\<close> is still there, unchanged, in \<open>h'\<close>.\<close>

definition heap_extends :: "heap \<Rightarrow> heap \<Rightarrow> bool" where
  "heap_extends h h' \<longleftrightarrow>
     take (length (tops h)) (tops h') = tops h \<and> take (length (secs h)) (secs h') = secs h"

text \<open>The events a step from \<open>s\<close> to \<open>s'\<close> has added to the trace.\<close>

definition new_events :: "('w, 'c) state \<Rightarrow> ('w, 'c) state \<Rightarrow> 'c event list" where
  "new_events s s' = drop (length (trace s)) (trace s')"

fun is_Run :: "'c event \<Rightarrow> bool" where
  "is_Run (Run name i num_cores use_restart mpirun_opts) = True"
| "is_Run ev = False"

fun is_Attach :: "'c event \<Rightarrow> bool" where
  "is_Attach (AttachDiagTable name diag_table) = True"
| "is_Attach (AttachNamelist name n) = True"
| "is_Attach ev = False"

fun is_SetResolution :: "'c event \<Rightarrow> bool" where
  "is_SetResolution (SetResolution name resolution) = True"
| "is_SetResolution ev = False"

text \<open>
  A sequence of constructions that all omit \<^verbatim>\<open>namelist_mod\<close>, each given by its name, code
  base and output frequency and taken up to line 64, whether or not they raise.
\<close>

fun construct_all ::
  "('w, 'e, 'c) framework \<Rightarrow> 'c class_env \<Rightarrow> (string \<times> 'c option \<times> int option) list
     \<Rightarrow> ('w, 'c) state \<Rightarrow> ('w, 'c) state" where
  "construct_all fw env [] s = s"
| "construct_all fw env ((name, codebase, output_freq) # rest) s =
     construct_all fw env rest
       (snd (MatsunoGillExperiment_init_config fw env name codebase output_freq None s))"

section \<open>Example inputs\<close>

text \<open>
  A framework whose calls all return, one whose compilation raises, one whose base-class
  initialiser raises, and ones whose resolution override and run raise. The framework state
  counts the calls made.
\<close>

definition ok_fw :: "(nat, string, string) framework" where
  "ok_fw = \<lparr>compile = (\<lambda>c w. (None, Suc w)),
            Experiment_init = (\<lambda>n c w. (None, Suc w)),
            set_resolution = (\<lambda>self args (h, w). (None, h, Suc w)),
            run = (\<lambda>self i n r opts (h, w). (None, h, Suc w))\<rparr>"

definition bad_compile_fw :: "(nat, string, string) framework" where
  "bad_compile_fw = ok_fw\<lparr>compile := (\<lambda>c w. (Some ''compilation failed'', Suc w))\<rparr>"

definition bad_init_fw :: "(nat, string, string) framework" where
  "bad_init_fw = ok_fw\<lparr>Experiment_init := (\<lambda>n c w. (Some ''no work directory'', Suc w))\<rparr>"

definition bad_resolution_fw :: "(nat, string, string) framework" where
  "bad_resolution_fw =
     ok_fw\<lparr>set_resolution := (\<lambda>self args (h, w). (Some ''unknown resolution'', h, Suc w))\<rparr>"

definition bad_run_fw :: "(nat, string, string) framework" where
  "bad_run_fw = ok_fw\<lparr>run := (\<lambda>self i n r opts (h, w). (Some ''run failed'', h, Suc w))\<rparr>"

definition empty_heap :: heap where
  "empty_heap = \<lparr>tops = [], secs = []\<rparr>"

definition start :: "(nat, string) state" where
  "start = \<lparr>mem = empty_heap, world = 0, trace = []\<rparr>"

text \<open>
  A store holding the shared default \<^verbatim>\<open>{}\<close> at address 0 and, at address 1, the override
  \<^verbatim>\<open>{'main_nml': {'days': 18000}, 'extra_nml': {'flag': True}}\<close>.
\<close>

definition fixture_env :: "string class_env" where
  "fixture_env = \<lparr>codebase_default = ''base'', namelist_mod_default = 0\<rparr>"

definition fixture_state :: "(nat, string) state" where
  "fixture_state =
     \<lparr>mem = \<lparr>tops = [[], [(''main_nml'', 0), (''extra_nml'', 1)]],
              secs = [[(''days'', PInt 18000)], [(''flag'', PBool True)]]\<rparr>,
      world = 0, trace = []\<rparr>"

text \<open>The defaults \<^verbatim>\<open>{'a': {'x': 0, 'y': 2}}\<close> and a store with the override \<^verbatim>\<open>{'a': {'x': 1}}\<close>.\<close>

definition ax_defaults :: "(string \<times> nml_section) list" where
  "ax_defaults = [(''a'', [(''x'', PInt 0), (''y'', PInt 2)])]"

definition ax_heap :: heap where
  "ax_heap = \<lparr>tops = [[(''a'', 0)]], secs = [[(''x'', PInt 1)]]\<rparr>"

section \<open>Diagnostic table: theorems\<close>

lemma build_diag_table_fields:
  "dt_fields (build_diag_table output_freq output_avg) =
     [\<lparr>fld_module = ''dynamics'', fld_name = ''ps'', fld_time_avg = Some output_avg\<rparr>,
      \<lparr>fld_module = ''dynamics'', fld_name = ''bk'', fld_time_avg = None\<rparr>,
      \<lparr>fld_module = ''dynamics'', fld_name = ''pk'', fld_time_avg = None\<rparr>,
      \<lparr>fld_module = ''dynamics'', fld_name = ''ucomp'', fld_time_avg = Some output_avg\<rparr>,
      \<lparr>fld_module = ''dynamics'', fld_name = ''vcomp'', fld_time_avg = Some output_avg\<rparr>,
      \<lparr>fld_module = ''dynamics'', fld_name = ''temp'', fld_time_avg = Some output_avg\<rparr>,
      \<lparr>fld_module = ''dynamics'', fld_name = ''vor'', fld_time_avg = Some output_avg\<rparr>,
      \<lparr>fld_module = ''dynamics'', fld_name = ''div'', fld_time_avg = Some output_avg\<rparr>,
      \<lparr>fld_module = ''hs_forcing'', fld_name = ''q_eqf'', fld_time_avg = Some output_avg\<rparr>]"
  by (simp add: build_diag_table_def DiagTable_new_def add_file_def add_field_def)

lemma build_diag_table_files:
  "dt_files (build_diag_table output_freq output_avg) =
     [\<lparr>file_name = ''atmos_monthly'', file_freq = output_freq, file_units = ''days'',
       file_time_units = ''days''\<rparr>]"
  by (simp add: build_diag_table_def DiagTable_new_def add_file_def add_field_def)

text \<open>
  C2. For every output frequency, the table built with averaging flag \<open>False\<close> registers the
  same fields (module and field name, in the same order) as the table built with \<open>True\<close>;
  the two tables have the same file registration and differ only in the averaging flag of
  the fields: setting the flag passed by the script to \<open>True\<close> in the \<open>False\<close> table gives the
  \<open>True\<close> table. Every table holds exactly nine field registrations and exactly one file
  registration. The table is a function of the output frequency and the flag alone: it is
  built from a new, empty table at every call.
\<close>

theorem build_diag_table_same_fields:
  "map field_id (dt_fields (build_diag_table output_freq False)) =
     map field_id (dt_fields (build_diag_table output_freq True))
   \<and> dt_files (build_diag_table output_freq False) = dt_files (build_diag_table output_freq True)
   \<and> map (with_avg True) (dt_fields (build_diag_table output_freq False)) =
       dt_fields (build_diag_table output_freq True)
   \<and> map (with_avg False) (dt_fields (build_diag_table output_freq True)) =
       dt_fields (build_diag_table output_freq False)
   \<and> length (dt_fields (build_diag_table output_freq output_avg)) = 9
   \<and> length (dt_files (build_diag_table output_freq output_avg)) = 1"
  by (simp add: build_diag_table_fields build_diag_table_files field_id_def with_avg_def)

theorem build_diag_table_same_fields_witness:
  "map field_id (dt_fields (build_diag_table 1000 False)) =
     [(''dynamics'', ''ps''), (''dynamics'', ''bk''), (''dynamics'', ''pk''),
      (''dynamics'', ''ucomp''), (''dynamics'', ''vcomp''), (''dynamics'', ''temp''),
      (''dynamics'', ''vor''), (''dynamics'', ''div''), (''hs_forcing'', ''q_eqf'')]
   \<and> map field_id (dt_fields (build_diag_table 1000 True)) =
       map field_id (dt_fields (build_diag_table 1000 False))
   \<and> length (dt_fields (build_diag_table 1000 False)) = 9
   \<and> length (dt_files (build_diag_table 1000 False)) = 1"
  using build_diag_table_same_fields [of 1000 False]
  by (simp add: build_diag_table_fields build_diag_table_files field_id_def with_avg_def)

section \<open>The merge loop: auxiliary facts\<close>

lemma update_absent: "map_of T k = None \<Longrightarrow> AList.update k v T = T @ [(k, v)]"
  by (induction T) (auto split: if_splits)

lemma sec_step_cong:
  "k \<notin> fst ` set items \<Longrightarrow> fold (sec_step (T @ [(k, v)])) items S = fold (sec_step T) items S"
proof (induction items arbitrary: S)
  case Nil then show ?case by simp
next
  case (Cons it items)
  obtain k' src where it: "it = (k', src)" by (cases it)
  from Cons.prems it have ne: "k' \<noteq> k" and rest: "k \<notin> fst ` set items" by auto
  have "sec_step (T @ [(k, v)]) it S = sec_step T it S"
    using ne by (simp add: sec_step_def it map_add_def split: option.splits)
  then show ?case using Cons.IH [OF rest] by simp
qed

lemma filter_absent_cong:
  "k \<notin> fst ` set items \<Longrightarrow>
   filter (\<lambda>(k', a). map_of (T @ [(k, v)]) k' = None) items =
   filter (\<lambda>(k', a). map_of T k' = None) items"
  by (rule filter_cong) (force simp: map_add_def split: option.splits)+

lemma fold_sec_step_length: "length (fold (sec_step T) items S) = length S"
  by (induction items arbitrary: S) (auto simp: sec_step_def split: option.splits)

lemma sec_step_frame: "map_of T (fst it) \<noteq> Some a \<Longrightarrow> sec_step T it S ! a = S ! a"
  by (cases it) (auto simp: sec_step_def split: option.splits)

lemma fold_sec_step_frame:
  "\<forall>k\<in>fst ` set items. map_of T k \<noteq> Some a \<Longrightarrow> fold (sec_step T) items S ! a = S ! a"
proof (induction items arbitrary: S)
  case Nil then show ?case by simp
next
  case (Cons it items)
  have "sec_step T it S ! a = S ! a"
    using Cons.prems by (simp add: sec_step_frame)
  moreover have "fold (sec_step T) items (sec_step T it S) ! a = sec_step T it S ! a"
    using Cons.prems by (intro Cons.IH) simp
  ultimately show ?case by simp
qed

lemma merge_loop_absent:
  "map_of (tops g ! n) k = None \<Longrightarrow>
   merge_loop n ((k, src) # items) g =
     merge_loop n items (g\<lparr>tops := (tops g)[n := tops g ! n @ [(k, src)]]\<rparr>)"
  by (simp add: update_absent)

lemma merge_loop_present:
  "map_of (tops g ! n) k = Some dst \<Longrightarrow>
   merge_loop n ((k, src) # items) g =
     merge_loop n items (g\<lparr>secs := (secs g)[dst := dict_update (secs g ! dst) (secs g ! src)]\<rparr>)"
  by simp

lemma merge_loop_closed:
  "distinct (map fst items) \<Longrightarrow> n < length (tops g) \<Longrightarrow>
   merge_loop n items g =
     \<lparr>tops = (tops g)[n := tops g ! n @ filter (\<lambda>(k, a). map_of (tops g ! n) k = None) items],
      secs = fold (sec_step (tops g ! n)) items (secs g)\<rparr>"
proof (induction items arbitrary: g)
  case Nil then show ?case by simp
next
  case (Cons it items)
  obtain k src where it: "it = (k, src)" by (cases it)
  from Cons.prems it have dist: "distinct (map fst items)" and notin: "k \<notin> fst ` set items" by auto
  show ?case
  proof (cases "map_of (tops g ! n) k")
    case None
    let ?g = "g\<lparr>tops := (tops g)[n := tops g ! n @ [(k, src)]]\<rparr>"
    have n': "n < length (tops ?g)" using Cons.prems(2) by simp
    have top: "tops ?g ! n = tops g ! n @ [(k, src)]" using Cons.prems(2) by simp
    have st: "sec_step (tops g ! n) (k, src) (secs g) = secs g"
      using None by (simp add: sec_step_def)
    have "merge_loop n (it # items) g = merge_loop n items ?g"
      unfolding it using None by (rule merge_loop_absent)
    also have "\<dots> = \<lparr>tops = (tops ?g)[n := tops ?g ! n @ filter (\<lambda>(k, a). map_of (tops ?g ! n) k = None) items],
      secs = fold (sec_step (tops ?g ! n)) items (secs ?g)\<rparr>"
      by (rule Cons.IH [OF dist n'])
    also have "\<dots> = \<lparr>tops = (tops g)[n := tops g ! n @ filter (\<lambda>(k, a). map_of (tops g ! n) k = None) (it # items)],
      secs = fold (sec_step (tops g ! n)) (it # items) (secs g)\<rparr>"
      unfolding top it sec_step_cong [OF notin] filter_absent_cong [OF notin]
      using None by (simp add: st)
    finally show ?thesis .
  next
    case (Some dst)
    let ?g = "g\<lparr>secs := (secs g)[dst := dict_update (secs g ! dst) (secs g ! src)]\<rparr>"
    have n': "n < length (tops ?g)" using Cons.prems(2) by simp
    have st: "sec_step (tops g ! n) (k, src) (secs g) = secs ?g"
      using Some by (simp add: sec_step_def)
    have "merge_loop n (it # items) g = merge_loop n items ?g"
      unfolding it using Some by (rule merge_loop_present)
    also have "\<dots> = \<lparr>tops = (tops ?g)[n := tops ?g ! n @ filter (\<lambda>(k, a). map_of (tops ?g ! n) k = None) items],
      secs = fold (sec_step (tops ?g ! n)) items (secs ?g)\<rparr>"
      by (rule Cons.IH [OF dist n'])
    also have "\<dots> = \<lparr>tops = (tops g)[n := tops g ! n @ filter (\<lambda>(k, a). map_of (tops g ! n) k = None) (it # items)],
      secs = fold (sec_step (tops g ! n)) (it # items) (secs g)\<rparr>"
      unfolding it using Some by (simp add: st)
    finally show ?thesis .
  qed
qed

lemma sec_step_length: "length (sec_step T it S) = length S"
  by (cases it) (auto simp: sec_step_def split: option.splits)

lemma fold_sec_step_target:
  assumes "distinct (map fst items)"
    and "map_of T ka = Some a"
    and "\<forall>k. map_of T k = Some a \<longrightarrow> k = ka"
    and "a < length S"
    and "\<forall>k dst. map_of T k = Some dst \<longrightarrow> dst \<notin> snd ` set items"
  shows "fold (sec_step T) items S ! a =
     (case map_of items ka of Some src \<Rightarrow> dict_update (S ! a) (S ! src) | None \<Rightarrow> S ! a)"
  using assms
proof (induction items arbitrary: S)
  case Nil show ?case by simp
next
  case (Cons it items)
  obtain k src where it: "it = (k, src)" by (cases it)
  from Cons.prems(1) it have dist: "distinct (map fst items)" and notin: "k \<notin> fst ` set items"
    by auto
  have ran: "\<forall>k dst. map_of T k = Some dst \<longrightarrow> dst \<notin> snd ` set items"
    using Cons.prems(5) by simp
  show ?case
  proof (cases "k = ka")
    case True
    have S1: "sec_step T it S = S[a := dict_update (S ! a) (S ! src)]"
      using True Cons.prems(2) by (simp add: it sec_step_def)
    have "\<forall>k'\<in>fst ` set items. map_of T k' \<noteq> Some a"
      using Cons.prems(3) notin True by blast
    then have "fold (sec_step T) items (sec_step T it S) ! a = sec_step T it S ! a"
      by (rule fold_sec_step_frame)
    moreover have mo: "map_of (it # items) ka = Some src"
      using True by (simp add: it)
    ultimately show ?thesis unfolding mo using Cons.prems(4) by (simp add: S1)
  next
    case False
    have "map_of T (fst it) \<noteq> Some a"
      using False Cons.prems(3) by (auto simp: it)
    then have a_same: "sec_step T it S ! a = S ! a"
      by (rule sec_step_frame)
    have src_same: "sec_step T it S ! src' = S ! src'" if "src' \<in> snd ` set items" for src'
    proof (rule sec_step_frame)
      show "map_of T (fst it) \<noteq> Some src'"
        using ran that by blast
    qed
    have len: "a < length (sec_step T it S)"
      using Cons.prems(4) by (simp add: sec_step_length)
    have IH: "fold (sec_step T) items (sec_step T it S) ! a =
       (case map_of items ka of Some src' \<Rightarrow> dict_update (sec_step T it S ! a) (sec_step T it S ! src')
        | None \<Rightarrow> sec_step T it S ! a)"
      using dist Cons.prems(2) Cons.prems(3) len ran by (rule Cons.IH)
    have mo: "map_of (it # items) ka = map_of items ka"
      using False by (simp add: it)
    show ?thesis
    proof (cases "map_of items ka")
      case None
      then show ?thesis unfolding mo using IH by (simp add: a_same)
    next
      case (Some src')
      then have "src' \<in> snd ` set items" by (force dest: map_of_SomeD)
      then show ?thesis unfolding mo using IH Some by (simp add: a_same src_same)
    qed
  qed
qed


lemma fresh_lookup_range:
  "map_of (zip names [b..<b + length names]) k = Some a \<Longrightarrow>
   b \<le> a \<and> a < b + length names \<and> names ! (a - b) = k"
  by (auto dest!: map_of_SomeD simp: in_set_zip)

lemma fresh_lookup_nth:
  "distinct names \<Longrightarrow> i < length names \<Longrightarrow>
   map_of (zip names [b..<b + length names]) (names ! i) = Some (b + i)"
  using map_of_zip_nth [of names "[b..<b + length names]" i] by simp

lemma fresh_lookup_None:
  "map_of (zip (map fst lit) [b..<b + length lit]) k = None \<longleftrightarrow> map_of lit k = None"
  using map_of_zip_is_None [of "map fst lit" "[b..<b + length lit]" k]
  by (simp add: map_of_eq_None_iff)

lemma merge_namelist_closed:
  assumes "valid_override h m"
  shows "merge_namelist lit m h =
     (length (tops h),
      \<lparr>tops = tops h @ [zip (map fst lit) [length (secs h)..<length (secs h) + length lit]
               @ filter (\<lambda>(k, a). map_of lit k = None) (tops h ! m)],
       secs = fold (sec_step (zip (map fst lit) [length (secs h)..<length (secs h) + length lit]))
                (tops h ! m) (secs h @ map snd lit)\<rparr>)"
proof -
  let ?T = "zip (map fst lit) [length (secs h)..<length (secs h) + length lit]"
  let ?h1 = "\<lparr>tops = tops h @ [?T], secs = secs h @ map snd lit\<rparr>"
  from assms have m: "m < length (tops h)" and dist: "distinct (map fst (tops h ! m))"
    by (simp_all add: valid_override_def)
  have items: "tops ?h1 ! m = tops h ! m" using m by (simp add: nth_append)
  have n: "length (tops h) < length (tops ?h1)" by simp
  have "merge_loop (length (tops h)) (tops h ! m) ?h1 =
     \<lparr>tops = (tops ?h1)[length (tops h) := tops ?h1 ! length (tops h) @
              filter (\<lambda>(k, a). map_of (tops ?h1 ! length (tops h)) k = None) (tops h ! m)],
      secs = fold (sec_step (tops ?h1 ! length (tops h))) (tops h ! m) (secs ?h1)\<rparr>"
    using dist n by (rule merge_loop_closed)
  then show ?thesis
    using m by (simp add: merge_namelist_def new_namelist_def nth_append fresh_lookup_None)
qed


lemma fresh_fold_old:
  "x < b \<Longrightarrow>
   fold (sec_step (zip names [b..<b + length names])) items S ! x = S ! x"
proof (rule fold_sec_step_frame, rule ballI)
  fix k
  assume "x < b"
  then show "map_of (zip names [b..<b + length names]) k \<noteq> Some x"
    using fresh_lookup_range [of names b k x] by auto
qed

lemma merge_namelist_frame:
  assumes "valid_override h m" and "merge_namelist lit m h = (n, h')"
  shows "n = length (tops h)"
    and "length (tops h') = Suc (length (tops h))"
    and "length (secs h') = length (secs h) + length lit"
    and "a < length (tops h) \<Longrightarrow> tops h' ! a = tops h ! a"
    and "x < length (secs h) \<Longrightarrow> secs h' ! x = secs h ! x"
proof -
  note c = assms(2) [unfolded merge_namelist_closed [OF assms(1)]]
  from c show "n = length (tops h)" by simp
  from c show "length (tops h') = Suc (length (tops h))" by auto
  from c show "length (secs h') = length (secs h) + length lit"
    by (auto simp: fold_sec_step_length)
  from c show "a < length (tops h) \<Longrightarrow> tops h' ! a = tops h ! a"
    by (auto simp: nth_append)
  from c show "x < length (secs h) \<Longrightarrow> secs h' ! x = secs h ! x"
    using fresh_fold_old [of x "length (secs h)" "map fst lit" "tops h ! m" "secs h @ map snd lit"]
    by (auto simp: nth_append)
qed

lemma fresh_fold_new:
  assumes "distinct (map fst items)" and "distinct (map fst lit)" and "i < length lit"
    and "list_all (\<lambda>(k, a). a < length S) items"
  shows "fold (sec_step (zip (map fst lit) [length S..<length S + length lit])) items
           (S @ map snd lit) ! (length S + i) =
     (case map_of items (fst (lit ! i)) of
        Some src \<Rightarrow> dict_update (snd (lit ! i)) (S ! src) | None \<Rightarrow> snd (lit ! i))"
proof -
  let ?T = "zip (map fst lit) [length S..<length S + length lit]"
  have look: "map_of ?T (fst (lit ! i)) = Some (length S + i)"
    using fresh_lookup_nth [of "map fst lit" i "length S"] assms(2,3) by simp
  have uniq: "\<forall>k. map_of ?T k = Some (length S + i) \<longrightarrow> k = fst (lit ! i)"
    using fresh_lookup_range [of "map fst lit" "length S" _ "length S + i"] assms(3) by auto
  have len: "length S + i < length (S @ map snd lit)" using assms(3) by simp
  have old: "src < length S" if "src \<in> snd ` set items" for src
    using assms(4) that by (auto simp: list_all_iff)
  have ran: "\<forall>k dst. map_of ?T k = Some dst \<longrightarrow> dst \<notin> snd ` set items"
  proof (intro allI impI)
    fix k dst assume "map_of ?T k = Some dst"
    then have "length S \<le> dst" using fresh_lookup_range [of "map fst lit" "length S" k dst] by simp
    then show "dst \<notin> snd ` set items" using old [of dst] by auto
  qed
  have "fold (sec_step ?T) items (S @ map snd lit) ! (length S + i) =
     (case map_of items (fst (lit ! i)) of
        Some src \<Rightarrow> dict_update ((S @ map snd lit) ! (length S + i)) ((S @ map snd lit) ! src)
      | None \<Rightarrow> (S @ map snd lit) ! (length S + i))"
    using assms(1) look uniq len ran by (rule fold_sec_step_target)
  moreover have "(S @ map snd lit) ! (length S + i) = snd (lit ! i)"
    using assms(3) by (simp add: nth_append)
  moreover have "(S @ map snd lit) ! src = S ! src" if "map_of items (fst (lit ! i)) = Some src" for src
    using old [of src] that by (force simp: nth_append dest: map_of_SomeD)
  ultimately show ?thesis by (simp split: option.splits)
qed


lemma map_of_namelist_of:
  "map_of (namelist_of h a) k = map_option (\<lambda>x. secs h ! x) (map_of (tops h ! a) k)"
  by (simp add: namelist_of_def map_of_map)

lemma merge_namelist_refines:
  assumes v: "valid_override h m" and d: "distinct (map fst lit)"
    and r: "merge_namelist lit m h = (n, h')"
  shows "namelist_of h' n = merge_spec lit (namelist_of h m)"
proof -
  let ?b = "length (secs h)"
  let ?T = "zip (map fst lit) [?b..<?b + length lit]"
  let ?items = "tops h ! m"
  let ?new = "filter (\<lambda>(k, a). map_of lit k = None) ?items"
  from v have dist: "distinct (map fst ?items)"
    and old: "list_all (\<lambda>(k, a). a < ?b) ?items"
    by (simp_all add: valid_override_def)
  note c = r [unfolded merge_namelist_closed [OF v]]
  from c have n: "n = length (tops h)" by simp
  from c have top: "tops h' ! n = ?T @ ?new" by (auto simp: nth_append)
  from c have secs: "secs h' = fold (sec_step ?T) ?items (secs h @ map snd lit)" by auto
  have A: "map (\<lambda>(k, x). (k, secs h' ! x)) ?T =
      map (\<lambda>(k, d). (k, case map_of (namelist_of h m) k of
          Some other \<Rightarrow> dict_update d other | None \<Rightarrow> d)) lit"
  proof (rule nth_equalityI)
    show "length (map (\<lambda>(k, x). (k, secs h' ! x)) ?T) =
      length (map (\<lambda>(k, d). (k, case map_of (namelist_of h m) k of
          Some other \<Rightarrow> dict_update d other | None \<Rightarrow> d)) lit)" by simp
  next
    fix i assume "i < length (map (\<lambda>(k, x). (k, secs h' ! x)) ?T)"
    then have i: "i < length lit" by simp
    have Ti: "?T ! i = (fst (lit ! i), ?b + i)" using i by simp
    have "secs h' ! (?b + i) =
       (case map_of ?items (fst (lit ! i)) of
          Some src \<Rightarrow> dict_update (snd (lit ! i)) (secs h ! src) | None \<Rightarrow> snd (lit ! i))"
      unfolding secs using dist d i old by (rule fresh_fold_new)
    then show "map (\<lambda>(k, x). (k, secs h' ! x)) ?T ! i =
      map (\<lambda>(k, d). (k, case map_of (namelist_of h m) k of
          Some other \<Rightarrow> dict_update d other | None \<Rightarrow> d)) lit ! i"
      using i by (simp add: Ti map_of_namelist_of split_def split: option.splits)
  qed
  have B: "map (\<lambda>(k, x). (k, secs h' ! x)) ?new =
      filter (\<lambda>(k, other). map_of lit k = None) (namelist_of h m)"
  proof -
    have "map (\<lambda>(k, x). (k, secs h' ! x)) ?new = map (\<lambda>(k, x). (k, secs h ! x)) ?new"
    proof (rule map_cong [OF refl])
      fix p assume "p \<in> set ?new"
      then have "snd p < ?b" using old by (auto simp: list_all_iff)
      then have "secs h' ! snd p = secs h ! snd p"
        using merge_namelist_frame(5) [OF v r] by simp
      then show "(case p of (k, x) \<Rightarrow> (k, secs h' ! x)) = (case p of (k, x) \<Rightarrow> (k, secs h ! x))"
        by (simp add: split_def)
    qed
    also have "\<dots> = filter (\<lambda>(k, other). map_of lit k = None) (namelist_of h m)"
      by (simp add: namelist_of_def filter_map comp_def split_def)
    finally show ?thesis .
  qed
  show ?thesis
    unfolding merge_spec_def A [symmetric] B [symmetric]
    by (simp add: namelist_of_def top)
qed

section \<open>The merged namelist and the store\<close>

lemma dict_update_map_of:
  "distinct (map fst other) \<Longrightarrow>
   map_of (dict_update d other) x = (case map_of other x of Some v \<Rightarrow> Some v | None \<Rightarrow> map_of d x)"
proof (induction other arbitrary: d)
  case Nil then show ?case by (simp add: dict_update_def)
next
  case (Cons p other)
  obtain k v where p: "p = (k, v)" by (cases p)
  from Cons.prems p have dist: "distinct (map fst other)" and notin: "map_of other k = None"
    by (auto simp: map_of_eq_None_iff)
  have "dict_update d (p # other) = dict_update (AList.update k v d) other"
    by (simp add: dict_update_def p)
  then show ?case
    using Cons.IH [OF dist, of "AList.update k v d"] notin
    by (simp add: p update_conv' split: option.splits)
qed

lemma map_of_map_keyed:
  "map_of (map (\<lambda>(k, d). (k, f k d)) lit) k = map_option (f k) (map_of lit k)"
  by (induction lit) auto

lemma map_of_filter_key:
  "P k \<Longrightarrow> map_of (filter (\<lambda>(k', v). P k') ov) k = map_of ov k"
  by (induction ov) auto

lemma map_of_merge_spec_both:
  "map_of lit k = Some d \<Longrightarrow> map_of ov k = Some other \<Longrightarrow>
   map_of (merge_spec lit ov) k = Some (dict_update d other)"
  by (simp add: merge_spec_def map_add_def map_of_map_keyed)

lemma map_of_merge_spec_default:
  "map_of lit k = Some d \<Longrightarrow> map_of ov k = None \<Longrightarrow> map_of (merge_spec lit ov) k = Some d"
  by (simp add: merge_spec_def map_add_def map_of_map_keyed)

lemma map_of_merge_spec_new:
  "map_of lit k = None \<Longrightarrow> map_of (merge_spec lit ov) k = map_of ov k"
  using map_of_filter_key [of "\<lambda>k. map_of lit k = None" k ov]
  by (simp add: merge_spec_def map_add_def map_of_map_keyed split: option.splits)

lemma heap_extends_refl: "heap_extends h h"
  by (simp add: heap_extends_def)

lemma heap_extends_nth:
  assumes "heap_extends h h'"
  shows "length (tops h) \<le> length (tops h')" and "length (secs h) \<le> length (secs h')"
    and "a < length (tops h) \<Longrightarrow> tops h' ! a = tops h ! a"
    and "x < length (secs h) \<Longrightarrow> secs h' ! x = secs h ! x"
proof -
  from assms have t: "take (length (tops h)) (tops h') = tops h"
    and s: "take (length (secs h)) (secs h') = secs h" by (simp_all add: heap_extends_def)
  show "length (tops h) \<le> length (tops h')"
    using arg_cong [OF t, of length] by simp
  show "length (secs h) \<le> length (secs h')"
    using arg_cong [OF s, of length] by simp
  show "a < length (tops h) \<Longrightarrow> tops h' ! a = tops h ! a"
    using arg_cong [OF t, of "\<lambda>l. l ! a"] by simp
  show "x < length (secs h) \<Longrightarrow> secs h' ! x = secs h ! x"
    using arg_cong [OF s, of "\<lambda>l. l ! x"] by simp
qed

lemma heap_extends_trans:
  assumes a: "heap_extends h1 h2" and b: "heap_extends h2 h3"
  shows "heap_extends h1 h3"
proof -
  have "take (length (tops h1)) (tops h3) = tops h1"
    using heap_extends_nth(1,3) [OF a] heap_extends_nth(1,3) [OF b]
    by (intro nth_equalityI) auto
  moreover have "take (length (secs h1)) (secs h3) = secs h1"
    using heap_extends_nth(2,4) [OF a] heap_extends_nth(2,4) [OF b]
    by (intro nth_equalityI) auto
  ultimately show ?thesis by (simp add: heap_extends_def)
qed

lemma merge_namelist_extends:
  assumes "valid_override h m" and "merge_namelist lit m h = (n, h')"
  shows "heap_extends h h'"
proof -
  have "take (length (tops h)) (tops h') = tops h"
    using merge_namelist_frame(2,4) [OF assms] by (intro nth_equalityI) auto
  moreover have "take (length (secs h)) (secs h') = secs h"
    using merge_namelist_frame(3,5) [OF assms] by (intro nth_equalityI) auto
  ultimately show ?thesis by (simp add: heap_extends_def)
qed

lemma namelist_of_extends:
  assumes "heap_extends h h'" and "a < length (tops h)"
    and "list_all (\<lambda>(k, x). x < length (secs h)) (tops h ! a)"
  shows "namelist_of h' a = namelist_of h a"
proof -
  have "map (\<lambda>(k, x). (k, secs h' ! x)) (tops h ! a) = map (\<lambda>(k, x). (k, secs h ! x)) (tops h ! a)"
  proof (rule map_cong [OF refl])
    fix p assume "p \<in> set (tops h ! a)"
    then have "snd p < length (secs h)" using assms(3) by (auto simp: list_all_iff)
    then show "(case p of (k, x) \<Rightarrow> (k, secs h' ! x)) = (case p of (k, x) \<Rightarrow> (k, secs h ! x))"
      using heap_extends_nth(4) [OF assms(1)] by (simp add: split_def)
  qed
  then show ?thesis
    using heap_extends_nth(3) [OF assms(1,2)] by (simp add: namelist_of_def)
qed

lemma valid_override_extends:
  assumes "heap_extends h h'" and "valid_override h m"
  shows "valid_override h' m"
proof -
  from assms(2) have m: "m < length (tops h)" by (simp add: valid_override_def)
  have "list_all (\<lambda>(k, a). a < length (secs h')) (tops h ! m)"
    using assms(2) heap_extends_nth(2) [OF assms(1)]
    by (auto simp: valid_override_def list_all_iff)
  then show ?thesis
    using assms(2) m heap_extends_nth(1,3) [OF assms(1)] by (simp add: valid_override_def)
qed

lemma merge_namelist_result_valid:
  assumes "valid_override h m" and "merge_namelist lit m h = (n, h')"
  shows "n < length (tops h')" and "list_all (\<lambda>(k, a). a < length (secs h')) (tops h' ! n)"
proof -
  note c = assms(2) [unfolded merge_namelist_closed [OF assms(1)]]
  from c show "n < length (tops h')" by auto
  from c have top: "tops h' ! n =
      zip (map fst lit) [length (secs h)..<length (secs h) + length lit]
        @ filter (\<lambda>(k, a). map_of lit k = None) (tops h ! m)"
    by (auto simp: nth_append)
  have len: "length (secs h') = length (secs h) + length lit"
    by (rule merge_namelist_frame(3) [OF assms])
  have "list_all (\<lambda>(k, a). a < length (secs h) + length lit)
          (zip (map fst lit) [length (secs h)..<length (secs h) + length lit])"
    by (auto simp: list_all_iff dest: set_zip_rightD)
  moreover have "list_all (\<lambda>(k, a). a < length (secs h) + length lit)
          (filter (\<lambda>(k, a). map_of lit k = None) (tops h ! m))"
    using assms(1) by (auto simp: valid_override_def list_all_iff)
  ultimately show "list_all (\<lambda>(k, a). a < length (secs h')) (tops h' ! n)"
    by (simp add: top len)
qed

section \<open>The constructor, case by case\<close>

lemma init_config_compile_raises:
  assumes "compile fw (codebase_arg env codebase) (world s) = (Some e, w1)"
  shows "MatsunoGillExperiment_init_config fw env name codebase output_freq namelist_mod s =
     (Inl e, s\<lparr>world := w1, trace := trace s @ [Compile (codebase_arg env codebase)]\<rparr>)"
  using assms by (simp add: MatsunoGillExperiment_init_config_def call_world_def Let_def)

lemma init_config_init_raises:
  assumes "compile fw (codebase_arg env codebase) (world s) = (None, w1)"
    and "Experiment_init fw name (codebase_arg env codebase) w1 = (Some e, w2)"
  shows "MatsunoGillExperiment_init_config fw env name codebase output_freq namelist_mod s =
     (Inl e, s\<lparr>world := w2, trace := trace s @
        [Compile (codebase_arg env codebase), ExperimentInit name (codebase_arg env codebase)]\<rparr>)"
  using assms by (simp add: MatsunoGillExperiment_init_config_def call_world_def Let_def)

lemma init_config_returns:
  assumes "compile fw (codebase_arg env codebase) (world s) = (None, w1)"
    and "Experiment_init fw name (codebase_arg env codebase) w1 = (None, w2)"
    and "merge_namelist default_namelist (namelist_mod_arg env namelist_mod) (mem s) = (n, h)"
  shows "MatsunoGillExperiment_init_config fw env name codebase output_freq namelist_mod s =
     (Inr \<lparr>exp_name = name, exp_codebase = codebase_arg env codebase,
           exp_diag_table = Some (build_diag_table (output_freq_arg output_freq) False),
           exp_namelist = Some n\<rparr>,
      s\<lparr>mem := h, world := w2, trace := trace s @
        [Compile (codebase_arg env codebase), ExperimentInit name (codebase_arg env codebase),
         AttachDiagTable name (build_diag_table (output_freq_arg output_freq) False),
         AttachNamelist name n]\<rparr>)"
  using assms by (simp add: MatsunoGillExperiment_init_config_def call_world_def Let_def)

lemma init_config_cases:
  obtains (compile_raises) e w1 where
      "compile fw (codebase_arg env codebase) (world s) = (Some e, w1)"
  | (init_raises) e w1 w2 where
      "compile fw (codebase_arg env codebase) (world s) = (None, w1)"
      "Experiment_init fw name (codebase_arg env codebase) w1 = (Some e, w2)"
  | (returns) w1 w2 n h where
      "compile fw (codebase_arg env codebase) (world s) = (None, w1)"
      "Experiment_init fw name (codebase_arg env codebase) w1 = (None, w2)"
      "merge_namelist default_namelist (namelist_mod_arg env namelist_mod) (mem s) = (n, h)"
proof -
  obtain r1 w1 where c: "compile fw (codebase_arg env codebase) (world s) = (r1, w1)"
    by (cases "compile fw (codebase_arg env codebase) (world s)")
  obtain r2 w2 where i: "Experiment_init fw name (codebase_arg env codebase) w1 = (r2, w2)"
    by (cases "Experiment_init fw name (codebase_arg env codebase) w1")
  obtain n h where m: "merge_namelist default_namelist (namelist_mod_arg env namelist_mod) (mem s) = (n, h)"
    by (cases "merge_namelist default_namelist (namelist_mod_arg env namelist_mod) (mem s)")
  show thesis
  proof (cases r1)
    case (Some e) with c show ?thesis by (auto intro: compile_raises)
  next
    case None
    note r1 = this
    show ?thesis
    proof (cases r2)
      case (Some e) with c i r1 show ?thesis by (auto intro: init_raises)
    next
      case None with c i m r1 show ?thesis by (auto intro: returns)
    qed
  qed
qed

lemma init_config_mem:
  assumes "MatsunoGillExperiment_init_config fw env name codebase output_freq namelist_mod s = (r, s')"
  shows "(\<exists>e. r = Inl e \<and> mem s' = mem s) \<or>
     (\<exists>self n. r = Inr self \<and> exp_namelist self = Some n \<and>
        merge_namelist default_namelist (namelist_mod_arg env namelist_mod) (mem s) = (n, mem s'))"
proof (cases rule: init_config_cases [where fw = fw and env = env and codebase = codebase
    and s = s and name = name and namelist_mod = namelist_mod])
  case (compile_raises e w1)
  show ?thesis
    using assms unfolding init_config_compile_raises [OF compile_raises] by auto
next
  case (init_raises e w1 w2)
  show ?thesis
    using assms unfolding init_config_init_raises [OF init_raises] by auto
next
  case (returns w1 w2 n h)
  show ?thesis
    using assms returns(3) unfolding init_config_returns [OF returns] by auto
qed

lemma default_namelist_distinct: "distinct (map fst default_namelist)"
  by (simp add: default_namelist_def)

lemma init_config_extends:
  assumes "valid_override (mem s) (namelist_mod_arg env namelist_mod)"
  shows "heap_extends (mem s)
     (mem (snd (MatsunoGillExperiment_init_config fw env name codebase output_freq namelist_mod s)))"
proof -
  obtain r s' where c:
    "MatsunoGillExperiment_init_config fw env name codebase output_freq namelist_mod s = (r, s')"
    by (cases "MatsunoGillExperiment_init_config fw env name codebase output_freq namelist_mod s")
  from init_config_mem [OF c] show ?thesis
    using merge_namelist_extends [OF assms] by (auto simp: c heap_extends_refl)
qed

lemma init_config_namelist:
  assumes v: "valid_override (mem s) (namelist_mod_arg env namelist_mod)"
    and c: "MatsunoGillExperiment_init_config fw env name codebase output_freq namelist_mod s =
              (Inr self, s')"
  shows "\<exists>n. exp_namelist self = Some n \<and>
     namelist_of (mem s') n =
       merge_spec default_namelist (namelist_of (mem s) (namelist_mod_arg env namelist_mod))"
proof -
  from init_config_mem [OF c] obtain n where n: "exp_namelist self = Some n"
    and m: "merge_namelist default_namelist (namelist_mod_arg env namelist_mod) (mem s) = (n, mem s')"
    by auto
  from merge_namelist_refines [OF v default_namelist_distinct m] n show ?thesis by simp
qed

lemmas fixture_defs =
  fixture_env_def fixture_state_def ok_fw_def MatsunoGillExperiment_init_config_def
  call_world_def codebase_arg_def output_freq_arg_def namelist_mod_arg_def
  merge_namelist_def new_namelist_def default_namelist_def valid_override_def namelist_of_def
  dict_update_def

lemma fixture_valid: "valid_override (mem fixture_state) (namelist_mod_arg fixture_env (Some 1))"
  by (simp add: fixture_defs)

lemma fixture_returns:
  "\<exists>self s'. MatsunoGillExperiment_init_config ok_fw fixture_env ''a'' None None (Some 1)
      fixture_state = (Inr self, s')"
  by (simp add: fixture_defs Let_def)

section \<open>The namelist attached by the constructor\<close>

text \<open>
  The three theorems of this section read the configuration mapping at the moment the
  constructor attaches it (line 64), through the store: \<open>namelist_of (mem s') n\<close> for the
  address \<open>n\<close> held by the handle. The resolution override of lines 66-67 runs after that
  and is a method of the framework.
\<close>

text \<open>
  C9. For every override mapping (a dict of dicts, with the dict objects it refers to in the
  store), every section that the default namelist has and the override mapping does not
  appears in the configuration mapping the constructor attaches, with exactly its default
  key/value pairs.
\<close>

theorem default_sections_kept:
  assumes "valid_override (mem s) (namelist_mod_arg env namelist_mod)"
    and "MatsunoGillExperiment_init_config fw env name codebase output_freq namelist_mod s =
           (Inr self, s')"
    and "map_of default_namelist key = Some d"
    and "map_of (namelist_of (mem s) (namelist_mod_arg env namelist_mod)) key = None"
  shows "\<exists>n. exp_namelist self = Some n \<and> map_of (namelist_of (mem s') n) key = Some d"
  using init_config_namelist [OF assms(1,2)] map_of_merge_spec_default [OF assms(3,4)] by auto

theorem default_sections_kept_witness:
  "\<exists>self s' n.
     MatsunoGillExperiment_init_config ok_fw fixture_env ''a'' None None (Some 1) fixture_state =
       (Inr self, s')
     \<and> exp_namelist self = Some n
     \<and> map_of (namelist_of (mem s') n) ''fms_nml'' = Some [(''domains_stack_size'', PInt 600000)]"
proof -
  from fixture_returns obtain self s' where c:
    "MatsunoGillExperiment_init_config ok_fw fixture_env ''a'' None None (Some 1) fixture_state =
       (Inr self, s')" by blast
  have d: "map_of default_namelist ''fms_nml'' = Some [(''domains_stack_size'', PInt 600000)]"
    by (simp add: default_namelist_def)
  have a: "map_of (namelist_of (mem fixture_state) (namelist_mod_arg fixture_env (Some 1)))
      ''fms_nml'' = None"
    by (simp add: fixture_defs)
  from default_sections_kept [OF fixture_valid c d a] c show ?thesis by blast
qed

text \<open>
  C4. For every override mapping with a section whose name the default namelist does not
  have, the configuration mapping the constructor attaches contains that section with exactly
  the key/value pairs the override gives it.
\<close>

theorem new_sections_inserted:
  assumes "valid_override (mem s) (namelist_mod_arg env namelist_mod)"
    and "MatsunoGillExperiment_init_config fw env name codebase output_freq namelist_mod s =
           (Inr self, s')"
    and "map_of default_namelist key = None"
    and "map_of (namelist_of (mem s) (namelist_mod_arg env namelist_mod)) key = Some other"
  shows "\<exists>n. exp_namelist self = Some n \<and> map_of (namelist_of (mem s') n) key = Some other"
  using init_config_namelist [OF assms(1,2)] map_of_merge_spec_new [OF assms(3)] assms(4) by auto

theorem new_sections_inserted_witness:
  "\<exists>self s' n.
     MatsunoGillExperiment_init_config ok_fw fixture_env ''a'' None None (Some 1) fixture_state =
       (Inr self, s')
     \<and> exp_namelist self = Some n
     \<and> map_of (namelist_of (mem s') n) ''extra_nml'' = Some [(''flag'', PBool True)]"
proof -
  from fixture_returns obtain self s' where c:
    "MatsunoGillExperiment_init_config ok_fw fixture_env ''a'' None None (Some 1) fixture_state =
       (Inr self, s')" by blast
  have d: "map_of default_namelist ''extra_nml'' = None"
    by (simp add: default_namelist_def)
  have a: "map_of (namelist_of (mem fixture_state) (namelist_mod_arg fixture_env (Some 1)))
      ''extra_nml'' = Some [(''flag'', PBool True)]"
    by (simp add: fixture_defs)
  from new_sections_inserted [OF fixture_valid c d a] c show ?thesis by blast
qed

text \<open>
  C1. For every override mapping and every section key that both the override and the
  defaults have, the merge of lines 58-63 leaves under that key the default section updated
  by the override section (\<^verbatim>\<open>dict.update\<close>): a parameter the override section has takes the
  override's value, every other parameter keeps its default. This holds of the merge into any
  defaults with unique section names, and so of the constructor, which merges into
  \<open>default_namelist\<close>. Merging \<^verbatim>\<open>{'a': {'x': 1}}\<close> into \<^verbatim>\<open>{'a': {'x': 0, 'y': 2}}\<close> is the
  instance evaluated after the theorem.
\<close>

theorem merge_is_shallow_update:
  assumes "valid_override h m"
    and "map_of (namelist_of h m) key = Some other"
    and "distinct (map fst other)"
  shows "(\<forall>lit d n h'. distinct (map fst lit) \<and> map_of lit key = Some d \<and>
            merge_namelist lit m h = (n, h') \<longrightarrow>
            map_of (namelist_of h' n) key = Some (dict_update d other))
     \<and> (\<forall>fw env name codebase output_freq namelist_mod s self s' d.
            mem s = h \<and> namelist_mod_arg env namelist_mod = m \<and>
            MatsunoGillExperiment_init_config fw env name codebase output_freq namelist_mod s =
              (Inr self, s') \<and>
            map_of default_namelist key = Some d \<longrightarrow>
            (\<exists>n. exp_namelist self = Some n \<and>
               map_of (namelist_of (mem s') n) key = Some (dict_update d other)))
     \<and> (\<forall>d x. map_of (dict_update d other) x =
            (case map_of other x of Some v \<Rightarrow> Some v | None \<Rightarrow> map_of d x))"
proof (intro conjI allI impI)
  fix lit d n h'
  assume a: "distinct (map fst lit) \<and> map_of lit key = Some d \<and> merge_namelist lit m h = (n, h')"
  then have "namelist_of h' n = merge_spec lit (namelist_of h m)"
    using merge_namelist_refines [OF assms(1)] by blast
  then show "map_of (namelist_of h' n) key = Some (dict_update d other)"
    using a assms(2) by (simp add: map_of_merge_spec_both)
next
  fix fw :: "('a, 'b, 'c) framework" and env name codebase output_freq namelist_mod
    and s self s' d
  assume a: "mem s = h \<and> namelist_mod_arg env namelist_mod = m \<and>
      MatsunoGillExperiment_init_config fw env name codebase output_freq namelist_mod s =
        (Inr self, s') \<and>
      map_of default_namelist key = Some d"
  then have v: "valid_override (mem s) (namelist_mod_arg env namelist_mod)"
    using assms(1) by simp
  from a have c: "MatsunoGillExperiment_init_config fw env name codebase output_freq namelist_mod s =
        (Inr self, s')" by simp
  from init_config_namelist [OF v c] a assms(2)
  show "\<exists>n. exp_namelist self = Some n \<and>
      map_of (namelist_of (mem s') n) key = Some (dict_update d other)"
    by (auto simp: map_of_merge_spec_both)
next
  fix d x
  show "map_of (dict_update d other) x =
      (case map_of other x of Some v \<Rightarrow> Some v | None \<Rightarrow> map_of d x)"
    by (rule dict_update_map_of [OF assms(3)])
qed

theorem merge_is_shallow_update_witness:
  "\<exists>n h'. merge_namelist ax_defaults 0 ax_heap = (n, h')
     \<and> map_of (namelist_of h' n) ''a'' = Some [(''x'', PInt 1), (''y'', PInt 2)]"
proof -
  have v: "valid_override ax_heap 0" by (simp add: ax_heap_def valid_override_def)
  have o: "map_of (namelist_of ax_heap 0) ''a'' = Some [(''x'', PInt 1)]"
    by (simp add: ax_heap_def namelist_of_def)
  have dk: "distinct (map fst [(''x'', PInt 1)])" by simp
  obtain n h' where m: "merge_namelist ax_defaults 0 ax_heap = (n, h')"
    by (cases "merge_namelist ax_defaults 0 ax_heap")
  have dl: "distinct (map fst ax_defaults)" by (simp add: ax_defaults_def)
  have d: "map_of ax_defaults ''a'' = Some [(''x'', PInt 0), (''y'', PInt 2)]"
    by (simp add: ax_defaults_def)
  from merge_is_shallow_update [OF v o dk] dl d m
  have "map_of (namelist_of h' n) ''a'' =
      Some (dict_update [(''x'', PInt 0), (''y'', PInt 2)] [(''x'', PInt 1)])"
    by blast
  then show ?thesis using m by (simp add: dict_update_def)
qed

section \<open>What a construction leaves alone\<close>

lemma construct_all_default_empty:
  assumes "namelist_mod_default env < length (tops (mem s))"
    and "tops (mem s) ! namelist_mod_default env = []"
  shows "namelist_mod_default env < length (tops (mem (construct_all fw env cs s)))
     \<and> tops (mem (construct_all fw env cs s)) ! namelist_mod_default env = []"
  using assms
proof (induction cs arbitrary: s)
  case Nil then show ?case by simp
next
  case (Cons c cs)
  obtain name codebase output_freq where c: "c = (name, codebase, output_freq)"
    by (cases c)
  let ?s = "snd (MatsunoGillExperiment_init_config fw env name codebase output_freq None s)"
  have v: "valid_override (mem s) (namelist_mod_arg env None)"
    using Cons.prems by (simp add: valid_override_def namelist_mod_arg_def)
  have e: "heap_extends (mem s) (mem ?s)" by (rule init_config_extends [OF v])
  have "namelist_mod_default env < length (tops (mem ?s))"
    using heap_extends_nth(1) [OF e] Cons.prems(1) by simp
  moreover have "tops (mem ?s) ! namelist_mod_default env = []"
    using heap_extends_nth(3) [OF e Cons.prems(1)] Cons.prems(2) by simp
  ultimately show ?case using Cons.IH [of ?s] by (simp add: c)
qed

text \<open>
  C10. For every construction, up to and including the attachment of the namelist (lines
  45-64), the override mapping passed as \<^verbatim>\<open>namelist_mod\<close> is not mutated: every dict object
  that exists before the construction is the same after it, so the override has the same
  section objects under the same keys, and they hold the same key/value pairs. This holds
  whether the construction returns or raises. In particular the dict \<^verbatim>\<open>{}\<close> bound as the
  default of \<^verbatim>\<open>namelist_mod\<close>, once empty, is empty after any sequence of constructions that
  omit \<^verbatim>\<open>namelist_mod\<close>.
\<close>

theorem override_not_mutated:
  "(valid_override (mem s) (namelist_mod_arg env namelist_mod) \<longrightarrow>
      heap_extends (mem s)
        (mem (snd (MatsunoGillExperiment_init_config fw env name codebase output_freq
                     namelist_mod s)))
      \<and> tops (mem (snd (MatsunoGillExperiment_init_config fw env name codebase output_freq
                     namelist_mod s))) ! namelist_mod_arg env namelist_mod
          = tops (mem s) ! namelist_mod_arg env namelist_mod
      \<and> namelist_of (mem (snd (MatsunoGillExperiment_init_config fw env name codebase
                     output_freq namelist_mod s))) (namelist_mod_arg env namelist_mod)
          = namelist_of (mem s) (namelist_mod_arg env namelist_mod))
   \<and> (namelist_mod_default env < length (tops (mem s)) \<and>
        tops (mem s) ! namelist_mod_default env = [] \<longrightarrow>
        tops (mem (construct_all fw env cs s)) ! namelist_mod_default env = [])"
proof (intro conjI impI)
  let ?m = "namelist_mod_arg env namelist_mod"
  let ?s = "snd (MatsunoGillExperiment_init_config fw env name codebase output_freq
                     namelist_mod s)"
  assume v: "valid_override (mem s) ?m"
  show e: "heap_extends (mem s) (mem ?s)" by (rule init_config_extends [OF v])
  from v have m: "?m < length (tops (mem s))"
    and r: "list_all (\<lambda>(k, x). x < length (secs (mem s))) (tops (mem s) ! ?m)"
    by (simp_all add: valid_override_def)
  show "tops (mem ?s) ! ?m = tops (mem s) ! ?m" by (rule heap_extends_nth(3) [OF e m])
  show "namelist_of (mem ?s) ?m = namelist_of (mem s) ?m"
    by (rule namelist_of_extends [OF e m r])
next
  assume "namelist_mod_default env < length (tops (mem s)) \<and>
        tops (mem s) ! namelist_mod_default env = []"
  then show "tops (mem (construct_all fw env cs s)) ! namelist_mod_default env = []"
    using construct_all_default_empty [of env s fw cs] by simp
qed

theorem override_not_mutated_witness:
  "valid_override (mem fixture_state) (namelist_mod_arg fixture_env (Some 1))
   \<and> namelist_of (mem (snd (MatsunoGillExperiment_init_config ok_fw fixture_env ''a'' None None
         (Some 1) fixture_state))) 1
       = [(''main_nml'', [(''days'', PInt 18000)]), (''extra_nml'', [(''flag'', PBool True)])]
   \<and> namelist_mod_default fixture_env < length (tops (mem fixture_state))
   \<and> tops (mem fixture_state) ! namelist_mod_default fixture_env = []
   \<and> tops (mem (construct_all ok_fw fixture_env
         [(''a'', None, None), (''b'', Some ''other'', Some 10), (''c'', None, None)]
         fixture_state)) ! namelist_mod_default fixture_env = []"
proof -
  have d: "namelist_mod_default fixture_env < length (tops (mem fixture_state))
      \<and> tops (mem fixture_state) ! namelist_mod_default fixture_env = []"
    by (simp add: fixture_defs)
  have n: "namelist_of (mem fixture_state) (namelist_mod_arg fixture_env (Some 1)) =
      [(''main_nml'', [(''days'', PInt 18000)]), (''extra_nml'', [(''flag'', PBool True)])]"
    by (simp add: fixture_defs)
  have a: "namelist_mod_arg fixture_env (Some 1) = 1" by (simp add: namelist_mod_arg_def)
  from override_not_mutated [of fixture_state fixture_env "Some 1" ok_fw "''a''" None None
      "[(''a'', None, None), (''b'', Some ''other'', Some 10), (''c'', None, None)]"]
    fixture_valid d n a
  show ?thesis by simp
qed

lemma fixture_second:
  "\<exists>exp1 s1 exp2 s2.
     MatsunoGillExperiment_init_config ok_fw fixture_env ''a'' None None (Some 1) fixture_state
       = (Inr exp1, s1)
     \<and> valid_override (mem s1) (namelist_mod_arg fixture_env None)
     \<and> MatsunoGillExperiment_init_config ok_fw fixture_env ''b'' None None None s1
       = (Inr exp2, s2)"
  by (simp add: fixture_defs Let_def)

text \<open>
  C3. For every two constructions, one after the other, with any names and any override
  mappings (the same dict, different dicts, or the shared default \<^verbatim>\<open>{}\<close>), each taken up to
  the attachment of its namelist (lines 45-64): the two experiments hold different namelist
  objects; the mapping of the first is what the merge of the defaults with its own override
  gave, and the second construction leaves its sections and values exactly as they were; the
  mapping of the second is the merge of the defaults with its own override alone, with
  nothing of the first in it. Exchanging the roles of the two constructions gives the other
  order. No hypothesis on the names is needed.
\<close>

theorem experiments_independent:
  assumes v1: "valid_override (mem s0) (namelist_mod_arg env namelist_mod1)"
    and c1: "MatsunoGillExperiment_init_config fw env name1 codebase1 output_freq1 namelist_mod1 s0
               = (Inr exp1, s1)"
    and v2: "valid_override (mem s1) (namelist_mod_arg env namelist_mod2)"
    and c2: "MatsunoGillExperiment_init_config fw env name2 codebase2 output_freq2 namelist_mod2 s1
               = (Inr exp2, s2)"
  shows "\<exists>n1 n2. exp_namelist exp1 = Some n1 \<and> exp_namelist exp2 = Some n2 \<and> n1 \<noteq> n2
     \<and> namelist_of (mem s1) n1 =
         merge_spec default_namelist (namelist_of (mem s0) (namelist_mod_arg env namelist_mod1))
     \<and> namelist_of (mem s2) n1 = namelist_of (mem s1) n1
     \<and> namelist_of (mem s2) n2 =
         merge_spec default_namelist (namelist_of (mem s1) (namelist_mod_arg env namelist_mod2))"
proof -
  from init_config_mem [OF c1] obtain n1 where n1: "exp_namelist exp1 = Some n1"
    and m1: "merge_namelist default_namelist (namelist_mod_arg env namelist_mod1) (mem s0) = (n1, mem s1)"
    by auto
  from init_config_mem [OF c2] obtain n2 where n2: "exp_namelist exp2 = Some n2"
    and m2: "merge_namelist default_namelist (namelist_mod_arg env namelist_mod2) (mem s1) = (n2, mem s2)"
    by auto
  have in1: "n1 < length (tops (mem s1))"
    and r1: "list_all (\<lambda>(k, a). a < length (secs (mem s1))) (tops (mem s1) ! n1)"
    using merge_namelist_result_valid [OF v1 m1] by simp_all
  have "n2 = length (tops (mem s1))" by (rule merge_namelist_frame(1) [OF v2 m2])
  then have ne: "n1 \<noteq> n2" using in1 by simp
  have e: "heap_extends (mem s1) (mem s2)" by (rule merge_namelist_extends [OF v2 m2])
  have keep: "namelist_of (mem s2) n1 = namelist_of (mem s1) n1"
    by (rule namelist_of_extends [OF e in1 r1])
  have a1: "namelist_of (mem s1) n1 =
      merge_spec default_namelist (namelist_of (mem s0) (namelist_mod_arg env namelist_mod1))"
    by (rule merge_namelist_refines [OF v1 default_namelist_distinct m1])
  have a2: "namelist_of (mem s2) n2 =
      merge_spec default_namelist (namelist_of (mem s1) (namelist_mod_arg env namelist_mod2))"
    by (rule merge_namelist_refines [OF v2 default_namelist_distinct m2])
  from n1 n2 ne a1 keep a2 show ?thesis by blast
qed

theorem experiments_independent_witness:
  "\<exists>exp1 s1 exp2 s2 n1 n2.
     MatsunoGillExperiment_init_config ok_fw fixture_env ''a'' None None (Some 1) fixture_state
       = (Inr exp1, s1)
     \<and> MatsunoGillExperiment_init_config ok_fw fixture_env ''b'' None None None s1
       = (Inr exp2, s2)
     \<and> exp_namelist exp1 = Some n1 \<and> exp_namelist exp2 = Some n2 \<and> n1 \<noteq> n2
     \<and> map_of (namelist_of (mem s2) n1) ''main_nml'' =
         Some [(''dt_atmos'', PInt 300), (''days'', PInt 18000), (''current_time'', PInt 0),
               (''calendar'', PStr ''no_calendar'')]
     \<and> map_of (namelist_of (mem s2) n2) ''main_nml'' =
         Some [(''dt_atmos'', PInt 300), (''days'', PInt 1800), (''current_time'', PInt 0),
               (''calendar'', PStr ''no_calendar'')]"
proof -
  from fixture_second obtain exp1 s1 exp2 s2 where
    c1: "MatsunoGillExperiment_init_config ok_fw fixture_env ''a'' None None (Some 1) fixture_state
       = (Inr exp1, s1)"
    and v2: "valid_override (mem s1) (namelist_mod_arg fixture_env None)"
    and c2: "MatsunoGillExperiment_init_config ok_fw fixture_env ''b'' None None None s1
       = (Inr exp2, s2)"
    by blast
  from experiments_independent [OF fixture_valid c1 v2 c2] obtain n1 n2 where
    n: "exp_namelist exp1 = Some n1" "exp_namelist exp2 = Some n2" "n1 \<noteq> n2"
    and a1: "namelist_of (mem s1) n1 = merge_spec default_namelist
        (namelist_of (mem fixture_state) (namelist_mod_arg fixture_env (Some 1)))"
    and keep: "namelist_of (mem s2) n1 = namelist_of (mem s1) n1"
    and a2: "namelist_of (mem s2) n2 = merge_spec default_namelist
        (namelist_of (mem s1) (namelist_mod_arg fixture_env None))"
    by blast
  have "heap_extends (mem fixture_state) (mem s1)"
    using init_config_extends [OF fixture_valid, of ok_fw "''a''" None None] unfolding c1 by simp
  from heap_extends_nth(3) [OF this, of 0]
  have "tops (mem s1) ! 0 = []" by (simp add: fixture_state_def)
  then have e: "namelist_of (mem s1) (namelist_mod_arg fixture_env None) = []"
    by (simp add: namelist_of_def namelist_mod_arg_def fixture_env_def)
  have "map_of (namelist_of (mem s2) n1) ''main_nml'' =
         Some [(''dt_atmos'', PInt 300), (''days'', PInt 18000), (''current_time'', PInt 0),
               (''calendar'', PStr ''no_calendar'')]"
    unfolding keep a1
    by (simp add: merge_spec_def default_namelist_def dict_update_def namelist_of_def
        namelist_mod_arg_def fixture_state_def)
  moreover have "map_of (namelist_of (mem s2) n2) ''main_nml'' =
         Some [(''dt_atmos'', PInt 300), (''days'', PInt 1800), (''current_time'', PInt 0),
               (''calendar'', PStr ''no_calendar'')]"
    unfolding a2 e by (simp add: merge_spec_def default_namelist_def)
  ultimately show ?thesis using c1 c2 n by blast
qed

section \<open>The order of effects\<close>

lemma init_config_raises:
  "MatsunoGillExperiment_init_config fw env name codebase output_freq namelist_mod s = (Inl e, s1) \<Longrightarrow>
   MatsunoGillExperiment_init fw env name codebase output_freq namelist_mod kwargs s = (Inl e, s1)"
  by (simp add: MatsunoGillExperiment_init_def)

lemma init_without_resolution:
  "MatsunoGillExperiment_init_config fw env name codebase output_freq namelist_mod s = (Inr self, s1) \<Longrightarrow>
   kwargs ''resolution'' = None \<Longrightarrow>
   MatsunoGillExperiment_init fw env name codebase output_freq namelist_mod kwargs s = (Inr self, s1)"
  by (simp add: MatsunoGillExperiment_init_def)

lemma init_with_resolution:
  "MatsunoGillExperiment_init_config fw env name codebase output_freq namelist_mod s = (Inr self, s1) \<Longrightarrow>
   kwargs ''resolution'' = Some resolution \<Longrightarrow>
   set_resolution fw self resolution (mem s1, world s1) = (r, h2, w2) \<Longrightarrow>
   MatsunoGillExperiment_init fw env name codebase output_freq namelist_mod kwargs s =
     (case r of Some e \<Rightarrow> Inl e | None \<Rightarrow> Inr self,
      s1\<lparr>mem := h2, world := w2, trace := trace s1 @ [SetResolution name resolution]\<rparr>)"
  by (simp add: MatsunoGillExperiment_init_def call_handle_def split: option.splits)

lemma init_config_trace:
  "\<exists>rest. trace (snd (MatsunoGillExperiment_init_config fw env name codebase output_freq
              namelist_mod s)) = trace s @ Compile (codebase_arg env codebase) # rest
     \<and> filter is_Run rest = [] \<and> filter is_SetResolution rest = []"
proof (cases rule: init_config_cases [where fw = fw and env = env and codebase = codebase
    and s = s and name = name and namelist_mod = namelist_mod])
  case (compile_raises e w1)
  show ?thesis unfolding init_config_compile_raises [OF compile_raises] by simp
next
  case (init_raises e w1 w2)
  show ?thesis unfolding init_config_init_raises [OF init_raises] by simp
next
  case (returns w1 w2 n h)
  show ?thesis unfolding init_config_returns [OF returns] by simp
qed

lemma init_trace:
  "\<exists>rest. trace (snd (MatsunoGillExperiment_init fw env name codebase output_freq
              namelist_mod kwargs s)) = trace s @ Compile (codebase_arg env codebase) # rest
     \<and> filter is_Run rest = []"
proof -
  obtain r s1 where c:
    "MatsunoGillExperiment_init_config fw env name codebase output_freq namelist_mod s = (r, s1)"
    by (cases "MatsunoGillExperiment_init_config fw env name codebase output_freq namelist_mod s")
  from init_config_trace [of fw env name codebase output_freq namelist_mod s] obtain rest where
    t: "trace s1 = trace s @ Compile (codebase_arg env codebase) # rest"
    and nr: "filter is_Run rest = []"
    by (auto simp: c)
  show ?thesis
  proof (cases r)
    case (Inl e)
    show ?thesis using t nr unfolding init_config_raises [OF c [unfolded Inl]] by simp
  next
    case (Inr self)
    note c' = c [unfolded Inr]
    show ?thesis
    proof (cases "kwargs ''resolution''")
      case None
      show ?thesis using t nr unfolding init_without_resolution [where kwargs = kwargs, OF c' None] by simp
    next
      case (Some resolution)
      obtain r2 h2 w2 where sr: "set_resolution fw self resolution (mem s1, world s1) = (r2, h2, w2)"
        by (cases "set_resolution fw self resolution (mem s1, world s1)")
      show ?thesis using t nr unfolding init_with_resolution [where kwargs = kwargs, OF c' Some sr] by simp
    qed
  qed
qed

lemmas init_defs = MatsunoGillExperiment_init_def call_handle_def

text \<open>
  C5. For every construction, whatever its arguments and whatever the framework does, the
  first thing the constructor does is the call that compiles the supplied code base: the
  events it adds to the trace begin with that call, so no diagnostic table and no namelist
  is attached to the handle before it.
\<close>

theorem compile_before_configuration:
  "\<exists>rest. trace (snd (MatsunoGillExperiment_init fw env name codebase output_freq namelist_mod
             kwargs s)) = trace s @ Compile (codebase_arg env codebase) # rest
     \<and> filter is_Attach
         (takeWhile (\<lambda>ev. ev \<noteq> Compile (codebase_arg env codebase))
            (new_events s (snd (MatsunoGillExperiment_init fw env name codebase output_freq
               namelist_mod kwargs s)))) = []"
  using init_trace [of fw env name codebase output_freq namelist_mod kwargs s]
  by (auto simp: new_events_def)

theorem compile_before_configuration_witness:
  "new_events fixture_state
     (snd (MatsunoGillExperiment_init ok_fw fixture_env ''a'' None None (Some 1)
        [''resolution'' \<mapsto> RESOLUTION] fixture_state)) =
     [Compile ''base'', ExperimentInit ''a'' ''base'',
      AttachDiagTable ''a'' (build_diag_table 90 False), AttachNamelist ''a'' 2,
      SetResolution ''a'' [PStr ''T42'', PInt 25]]"
  using compile_before_configuration [where fw = ok_fw and env = fixture_env and name = "''a''"
      and codebase = None and output_freq = None and namelist_mod = "Some 1"
      and kwargs = "[''resolution'' \<mapsto> RESOLUTION]" and s = fixture_state]
  by (simp add: fixture_defs init_defs new_events_def RESOLUTION_def Let_def)

lemma init_config_handle:
  assumes "MatsunoGillExperiment_init_config fw env name codebase output_freq namelist_mod s =
      (Inr self, s1)"
  shows "\<exists>n. self = \<lparr>exp_name = name, exp_codebase = codebase_arg env codebase,
             exp_diag_table = Some (build_diag_table (output_freq_arg output_freq) False),
             exp_namelist = Some n\<rparr>
     \<and> trace s1 = trace s @
         [Compile (codebase_arg env codebase), ExperimentInit name (codebase_arg env codebase),
          AttachDiagTable name (build_diag_table (output_freq_arg output_freq) False),
          AttachNamelist name n]"
proof (cases rule: init_config_cases [where fw = fw and env = env and codebase = codebase
    and s = s and name = name and namelist_mod = namelist_mod])
  case (compile_raises e w1)
  show ?thesis using assms unfolding init_config_compile_raises [OF compile_raises] by simp
next
  case (init_raises e w1 w2)
  show ?thesis using assms unfolding init_config_init_raises [OF init_raises] by simp
next
  case (returns w1 w2 n h)
  show ?thesis using assms unfolding init_config_returns [OF returns] by auto
qed

text \<open>
  C7. For every construction that gets as far as line 66 (compilation and the base-class
  initialiser have returned), the resolution override is called if and only if the keyword
  \<^verbatim>\<open>resolution\<close> is supplied: the events of the construction are the compilation, the
  base-class initialiser, the attachment of the diagnostic table and that of the namelist,
  followed by the call of \<^verbatim>\<open>set_resolution\<close> exactly when the keyword is there. The call is
  made on the handle that holds both, in the state reached at line 64, and no run is among
  the events of a construction. A construction that raised before line 66 makes no such call.
\<close>

theorem resolution_override:
  "(\<forall>e s1. MatsunoGillExperiment_init_config fw env name codebase output_freq namelist_mod s =
        (Inl e, s1) \<longrightarrow>
      MatsunoGillExperiment_init fw env name codebase output_freq namelist_mod kwargs s =
        (Inl e, s1)
      \<and> filter is_SetResolution (new_events s s1) = [])
   \<and> (\<forall>self s1. MatsunoGillExperiment_init_config fw env name codebase output_freq namelist_mod s =
        (Inr self, s1) \<longrightarrow>
      (\<exists>n. exp_diag_table self = Some (build_diag_table (output_freq_arg output_freq) False)
         \<and> exp_namelist self = Some n
         \<and> new_events s (snd (MatsunoGillExperiment_init fw env name codebase output_freq
               namelist_mod kwargs s)) =
             [Compile (codebase_arg env codebase),
              ExperimentInit name (codebase_arg env codebase),
              AttachDiagTable name (build_diag_table (output_freq_arg output_freq) False),
              AttachNamelist name n]
             @ (case kwargs ''resolution'' of None \<Rightarrow> []
                | Some resolution \<Rightarrow> [SetResolution name resolution]))
      \<and> (case kwargs ''resolution'' of
            None \<Rightarrow>
              MatsunoGillExperiment_init fw env name codebase output_freq namelist_mod kwargs s =
                (Inr self, s1)
          | Some resolution \<Rightarrow>
              snd (MatsunoGillExperiment_init fw env name codebase output_freq namelist_mod
                     kwargs s) =
                snd (call_handle (SetResolution name resolution)
                       (set_resolution fw self resolution) s1)))"
proof (intro conjI allI impI)
  fix e s1
  assume c: "MatsunoGillExperiment_init_config fw env name codebase output_freq namelist_mod s =
        (Inl e, s1)"
  show "MatsunoGillExperiment_init fw env name codebase output_freq namelist_mod kwargs s =
        (Inl e, s1)"
    by (rule init_config_raises [OF c])
  from init_config_trace [of fw env name codebase output_freq namelist_mod s]
  show "filter is_SetResolution (new_events s s1) = []"
    by (auto simp: c new_events_def)
next
  fix self s1
  assume c: "MatsunoGillExperiment_init_config fw env name codebase output_freq namelist_mod s =
        (Inr self, s1)"
  from init_config_handle [OF c] obtain n where
    self: "self = \<lparr>exp_name = name, exp_codebase = codebase_arg env codebase,
             exp_diag_table = Some (build_diag_table (output_freq_arg output_freq) False),
             exp_namelist = Some n\<rparr>"
    and t: "trace s1 = trace s @
         [Compile (codebase_arg env codebase), ExperimentInit name (codebase_arg env codebase),
          AttachDiagTable name (build_diag_table (output_freq_arg output_freq) False),
          AttachNamelist name n]"
    by blast
  have tr: "new_events s (snd (MatsunoGillExperiment_init fw env name codebase output_freq
               namelist_mod kwargs s)) =
             [Compile (codebase_arg env codebase),
              ExperimentInit name (codebase_arg env codebase),
              AttachDiagTable name (build_diag_table (output_freq_arg output_freq) False),
              AttachNamelist name n]
             @ (case kwargs ''resolution'' of None \<Rightarrow> []
                | Some resolution \<Rightarrow> [SetResolution name resolution])"
  proof (cases "kwargs ''resolution''")
    case None
    show ?thesis
      using t unfolding init_without_resolution [where kwargs = kwargs, OF c None]
      by (simp add: new_events_def None)
  next
    case (Some resolution)
    obtain r2 h2 w2 where sr: "set_resolution fw self resolution (mem s1, world s1) = (r2, h2, w2)"
      by (cases "set_resolution fw self resolution (mem s1, world s1)")
    show ?thesis
      using t unfolding init_with_resolution [where kwargs = kwargs, OF c Some sr]
      by (simp add: new_events_def Some)
  qed
  show "\<exists>n. exp_diag_table self = Some (build_diag_table (output_freq_arg output_freq) False)
         \<and> exp_namelist self = Some n
         \<and> new_events s (snd (MatsunoGillExperiment_init fw env name codebase output_freq
               namelist_mod kwargs s)) =
             [Compile (codebase_arg env codebase),
              ExperimentInit name (codebase_arg env codebase),
              AttachDiagTable name (build_diag_table (output_freq_arg output_freq) False),
              AttachNamelist name n]
             @ (case kwargs ''resolution'' of None \<Rightarrow> []
                | Some resolution \<Rightarrow> [SetResolution name resolution])"
    using tr self by auto
  show "case kwargs ''resolution'' of
            None \<Rightarrow>
              MatsunoGillExperiment_init fw env name codebase output_freq namelist_mod kwargs s =
                (Inr self, s1)
          | Some resolution \<Rightarrow>
              snd (MatsunoGillExperiment_init fw env name codebase output_freq namelist_mod
                     kwargs s) =
                snd (call_handle (SetResolution name resolution)
                       (set_resolution fw self resolution) s1)"
    by (simp add: MatsunoGillExperiment_init_def c split: option.splits prod.splits)
qed

theorem resolution_override_witness:
  "(\<exists>self s1 n.
      MatsunoGillExperiment_init_config ok_fw fixture_env ''a'' None None (Some 1) fixture_state =
        (Inr self, s1)
      \<and> new_events fixture_state
          (snd (MatsunoGillExperiment_init ok_fw fixture_env ''a'' None None (Some 1)
             [''resolution'' \<mapsto> RESOLUTION] fixture_state)) =
          [Compile ''base'', ExperimentInit ''a'' ''base'',
           AttachDiagTable ''a'' (build_diag_table 90 False), AttachNamelist ''a'' n,
           SetResolution ''a'' RESOLUTION]
      \<and> new_events fixture_state
          (snd (MatsunoGillExperiment_init ok_fw fixture_env ''a'' None None (Some 1)
             Map.empty fixture_state)) =
          [Compile ''base'', ExperimentInit ''a'' ''base'',
           AttachDiagTable ''a'' (build_diag_table 90 False), AttachNamelist ''a'' n])"
proof -
  from fixture_returns obtain self s1 where c:
    "MatsunoGillExperiment_init_config ok_fw fixture_env ''a'' None None (Some 1) fixture_state =
       (Inr self, s1)" by blast
  from resolution_override [where fw = ok_fw and env = fixture_env and name = "''a''"
      and codebase = None and output_freq = None and namelist_mod = "Some 1"
      and kwargs = "[''resolution'' \<mapsto> RESOLUTION]" and s = fixture_state] c
  obtain n where n: "exp_namelist self = Some n"
    and a: "new_events fixture_state
          (snd (MatsunoGillExperiment_init ok_fw fixture_env ''a'' None None (Some 1)
             [''resolution'' \<mapsto> RESOLUTION] fixture_state)) =
          [Compile ''base'', ExperimentInit ''a'' ''base'',
           AttachDiagTable ''a'' (build_diag_table 90 False), AttachNamelist ''a'' n,
           SetResolution ''a'' RESOLUTION]"
    by (auto simp: codebase_arg_def output_freq_arg_def fixture_env_def)
  from resolution_override [where fw = ok_fw and env = fixture_env and name = "''a''"
      and codebase = None and output_freq = None and namelist_mod = "Some 1"
      and kwargs = Map.empty and s = fixture_state] c n
  have b: "new_events fixture_state
          (snd (MatsunoGillExperiment_init ok_fw fixture_env ''a'' None None (Some 1)
             Map.empty fixture_state)) =
          [Compile ''base'', ExperimentInit ''a'' ''base'',
           AttachDiagTable ''a'' (build_diag_table 90 False), AttachNamelist ''a'' n]"
    by (auto simp: codebase_arg_def output_freq_arg_def fixture_env_def)
  from c a b show ?thesis by blast
qed

lemma script_setup_trace:
  "script_setup from_directory p = (env, namelist_mod, p0) \<Longrightarrow>
   trace p0 = trace p \<and> world p0 = world p"
  by (auto simp: script_setup_def Let_def split: prod.splits)

lemma script_construction_raises:
  "script_setup from_directory p = (env, namelist_mod, p0) \<Longrightarrow>
   MatsunoGillExperiment_init fw env ''superrotation_nzforcing_q1_long'' None (Some 1000)
       (Some namelist_mod) [''resolution'' \<mapsto> RESOLUTION] p0 = (Inl e, p1) \<Longrightarrow>
   script fw from_directory is_main argv p = (Some e, p1)"
  by (simp add: script_def)

lemma script_runs:
  "script_setup from_directory p = (env, namelist_mod, p0) \<Longrightarrow>
   MatsunoGillExperiment_init fw env ''superrotation_nzforcing_q1_long'' None (Some 1000)
       (Some namelist_mod) [''resolution'' \<mapsto> RESOLUTION] p0 = (Inr exp', p1) \<Longrightarrow>
   script fw from_directory True argv p =
     call_handle (Run (exp_name exp') 1 NCORES False (str_join '' '' (drop 1 argv)))
       (run fw exp' 1 NCORES False (str_join '' '' (drop 1 argv))) p1"
  by (simp add: script_def)

lemmas script_defs =
  script_setup_def class_def_def new_namelist_def exp_namelist_mod_def start_def empty_heap_def
  MatsunoGillExperiment_init_def MatsunoGillExperiment_init_config_def call_world_def
  call_handle_def codebase_arg_def output_freq_arg_def namelist_mod_arg_def merge_namelist_def
  default_namelist_def dict_update_def RESOLUTION_def

lemma script_fixture_ok:
  "\<exists>env namelist_mod p0 exp' p1.
     script_setup ''base'' start = (env, namelist_mod, p0)
     \<and> MatsunoGillExperiment_init ok_fw env ''superrotation_nzforcing_q1_long'' None (Some 1000)
         (Some namelist_mod) [''resolution'' \<mapsto> RESOLUTION] p0 = (Inr exp', p1)"
  by (simp add: script_defs ok_fw_def Let_def)

lemma script_fixture_bad_run:
  "\<exists>env namelist_mod p0 exp' p1.
     script_setup ''base'' start = (env, namelist_mod, p0)
     \<and> MatsunoGillExperiment_init bad_run_fw env ''superrotation_nzforcing_q1_long'' None
         (Some 1000) (Some namelist_mod) [''resolution'' \<mapsto> RESOLUTION] p0 = (Inr exp', p1)"
  by (simp add: script_defs ok_fw_def bad_run_fw_def Let_def)

lemma fixture_bad_resolution:
  "\<exists>self s1. MatsunoGillExperiment_init_config bad_resolution_fw fixture_env ''a'' None None
      (Some 1) fixture_state = (Inr self, s1)"
  by (simp add: fixture_defs bad_resolution_fw_def Let_def)

text \<open>
  C8. The script handles no error: whenever a call into the framework raises during
  construction (the compilation, the base-class initialiser, the resolution override) the
  constructor raises the same exception, having done nothing after the call; a constructor
  that raises makes the script raise the same exception, and so does a run that raises. In
  particular, when the compilation fails nothing is attached: the only event is the
  compilation, the store is as it was and no handle is returned.
\<close>

theorem errors_propagate:
  "(\<forall>e w1. compile fw (codebase_arg env codebase) (world s) = (Some e, w1) \<longrightarrow>
      MatsunoGillExperiment_init fw env name codebase output_freq namelist_mod kwargs s =
        (Inl e, s\<lparr>world := w1, trace := trace s @ [Compile (codebase_arg env codebase)]\<rparr>)
      \<and> filter is_Attach
          (new_events s (snd (MatsunoGillExperiment_init fw env name codebase output_freq
             namelist_mod kwargs s))) = [])
   \<and> (\<forall>e w1 w2. compile fw (codebase_arg env codebase) (world s) = (None, w1) \<and>
        Experiment_init fw name (codebase_arg env codebase) w1 = (Some e, w2) \<longrightarrow>
      MatsunoGillExperiment_init fw env name codebase output_freq namelist_mod kwargs s =
        (Inl e, s\<lparr>world := w2, trace := trace s @
           [Compile (codebase_arg env codebase),
            ExperimentInit name (codebase_arg env codebase)]\<rparr>))
   \<and> (\<forall>self s1 resolution e h2 w2.
        MatsunoGillExperiment_init_config fw env name codebase output_freq namelist_mod s =
          (Inr self, s1) \<and>
        kwargs ''resolution'' = Some resolution \<and>
        set_resolution fw self resolution (mem s1, world s1) = (Some e, h2, w2) \<longrightarrow>
      MatsunoGillExperiment_init fw env name codebase output_freq namelist_mod kwargs s =
        (Inl e, s1\<lparr>mem := h2, world := w2,
                   trace := trace s1 @ [SetResolution name resolution]\<rparr>))
   \<and> (\<forall>env' namelist_mod' p0 e p1.
        script_setup from_directory p = (env', namelist_mod', p0) \<and>
        MatsunoGillExperiment_init fw env' ''superrotation_nzforcing_q1_long'' None (Some 1000)
          (Some namelist_mod') [''resolution'' \<mapsto> RESOLUTION] p0 = (Inl e, p1) \<longrightarrow>
      script fw from_directory is_main argv p = (Some e, p1))
   \<and> (\<forall>env' namelist_mod' p0 exp' p1 e h2 w2.
        script_setup from_directory p = (env', namelist_mod', p0) \<and>
        MatsunoGillExperiment_init fw env' ''superrotation_nzforcing_q1_long'' None (Some 1000)
          (Some namelist_mod') [''resolution'' \<mapsto> RESOLUTION] p0 = (Inr exp', p1) \<and>
        run fw exp' 1 NCORES False (str_join '' '' (drop 1 argv)) (mem p1, world p1) =
          (Some e, h2, w2) \<longrightarrow>
      script fw from_directory True argv p =
        (Some e, p1\<lparr>mem := h2, world := w2,
                    trace := trace p1 @
                      [Run (exp_name exp') 1 NCORES False (str_join '' '' (drop 1 argv))]\<rparr>))"
proof (intro conjI allI impI)
  fix e w1
  assume a: "compile fw (codebase_arg env codebase) (world s) = (Some e, w1)"
  show r: "MatsunoGillExperiment_init fw env name codebase output_freq namelist_mod kwargs s =
        (Inl e, s\<lparr>world := w1, trace := trace s @ [Compile (codebase_arg env codebase)]\<rparr>)"
    by (rule init_config_raises [OF init_config_compile_raises [OF a]])
  show "filter is_Attach
          (new_events s (snd (MatsunoGillExperiment_init fw env name codebase output_freq
             namelist_mod kwargs s))) = []"
    by (simp add: r new_events_def)
next
  fix e w1 w2
  assume a: "compile fw (codebase_arg env codebase) (world s) = (None, w1) \<and>
        Experiment_init fw name (codebase_arg env codebase) w1 = (Some e, w2)"
  show "MatsunoGillExperiment_init fw env name codebase output_freq namelist_mod kwargs s =
        (Inl e, s\<lparr>world := w2, trace := trace s @
           [Compile (codebase_arg env codebase),
            ExperimentInit name (codebase_arg env codebase)]\<rparr>)"
    by (rule init_config_raises [OF init_config_init_raises [OF conjunct1 [OF a] conjunct2 [OF a]]])
next
  fix self s1 resolution e h2 w2
  assume a: "MatsunoGillExperiment_init_config fw env name codebase output_freq namelist_mod s =
          (Inr self, s1) \<and>
        kwargs ''resolution'' = Some resolution \<and>
        set_resolution fw self resolution (mem s1, world s1) = (Some e, h2, w2)"
  show "MatsunoGillExperiment_init fw env name codebase output_freq namelist_mod kwargs s =
        (Inl e, s1\<lparr>mem := h2, world := w2,
                   trace := trace s1 @ [SetResolution name resolution]\<rparr>)"
    using init_with_resolution [where kwargs = kwargs and fw = fw and self = self
        and resolution = resolution and ?s1.0 = s1 and r = "Some e" and ?h2.0 = h2 and ?w2.0 = w2
        and env = env and name = name and codebase = codebase and output_freq = output_freq
        and namelist_mod = namelist_mod and s = s] a
    by simp
next
  fix env' namelist_mod' p0 e p1
  assume a: "script_setup from_directory p = (env', namelist_mod', p0) \<and>
        MatsunoGillExperiment_init fw env' ''superrotation_nzforcing_q1_long'' None (Some 1000)
          (Some namelist_mod') [''resolution'' \<mapsto> RESOLUTION] p0 = (Inl e, p1)"
  show "script fw from_directory is_main argv p = (Some e, p1)"
    by (rule script_construction_raises [OF conjunct1 [OF a] conjunct2 [OF a]])
next
  fix env' namelist_mod' p0 exp' p1 e h2 w2
  assume a: "script_setup from_directory p = (env', namelist_mod', p0) \<and>
        MatsunoGillExperiment_init fw env' ''superrotation_nzforcing_q1_long'' None (Some 1000)
          (Some namelist_mod') [''resolution'' \<mapsto> RESOLUTION] p0 = (Inr exp', p1) \<and>
        run fw exp' 1 NCORES False (str_join '' '' (drop 1 argv)) (mem p1, world p1) =
          (Some e, h2, w2)"
  then show "script fw from_directory True argv p =
        (Some e, p1\<lparr>mem := h2, world := w2,
                    trace := trace p1 @
                      [Run (exp_name exp') 1 NCORES False (str_join '' '' (drop 1 argv))]\<rparr>)"
    using script_runs [of from_directory p env' namelist_mod' p0 fw exp' p1 argv]
    by (simp add: call_handle_def)
qed

theorem errors_propagate_witness:
  "MatsunoGillExperiment_init bad_compile_fw fixture_env ''a'' None None (Some 1)
     [''resolution'' \<mapsto> RESOLUTION] fixture_state =
     (Inl ''compilation failed'', fixture_state\<lparr>world := 1, trace := [Compile ''base'']\<rparr>)
   \<and> MatsunoGillExperiment_init bad_init_fw fixture_env ''a'' None None (Some 1)
     [''resolution'' \<mapsto> RESOLUTION] fixture_state =
     (Inl ''no work directory'',
      fixture_state\<lparr>world := 2, trace := [Compile ''base'', ExperimentInit ''a'' ''base'']\<rparr>)
   \<and> fst (MatsunoGillExperiment_init bad_resolution_fw fixture_env ''a'' None None (Some 1)
     [''resolution'' \<mapsto> RESOLUTION] fixture_state) = Inl ''unknown resolution''
   \<and> fst (script bad_compile_fw ''base'' True [''prog''] start) = Some ''compilation failed''
   \<and> fst (script bad_run_fw ''base'' True [''prog''] start) = Some ''run failed''"
proof -
  note inst = errors_propagate [where env = fixture_env and name = "''a''" and codebase = None
      and output_freq = None and namelist_mod = "Some 1"
      and kwargs = "[''resolution'' \<mapsto> RESOLUTION]" and s = fixture_state
      and from_directory = "''base''" and p = start and is_main = True and argv = "[''prog'']"]
  have w1: "MatsunoGillExperiment_init bad_compile_fw fixture_env ''a'' None None (Some 1)
     [''resolution'' \<mapsto> RESOLUTION] fixture_state =
     (Inl ''compilation failed'', fixture_state\<lparr>world := 1, trace := [Compile ''base'']\<rparr>)"
    using inst [where fw = bad_compile_fw]
    by (simp add: bad_compile_fw_def ok_fw_def fixture_env_def fixture_state_def
        codebase_arg_def)
  have w2: "MatsunoGillExperiment_init bad_init_fw fixture_env ''a'' None None (Some 1)
     [''resolution'' \<mapsto> RESOLUTION] fixture_state =
     (Inl ''no work directory'',
      fixture_state\<lparr>world := 2, trace := [Compile ''base'', ExperimentInit ''a'' ''base'']\<rparr>)"
    using inst [where fw = bad_init_fw]
    by (simp add: bad_init_fw_def ok_fw_def fixture_env_def fixture_state_def
        codebase_arg_def)
  from fixture_bad_resolution obtain self s1 where c:
    "MatsunoGillExperiment_init_config bad_resolution_fw fixture_env ''a'' None None
      (Some 1) fixture_state = (Inr self, s1)" by blast
  have "set_resolution bad_resolution_fw self RESOLUTION (mem s1, world s1) =
      (Some ''unknown resolution'', mem s1, Suc (world s1))"
    by (simp add: bad_resolution_fw_def ok_fw_def)
  with c inst [where fw = bad_resolution_fw]
  have w3: "fst (MatsunoGillExperiment_init bad_resolution_fw fixture_env ''a'' None None (Some 1)
     [''resolution'' \<mapsto> RESOLUTION] fixture_state) = Inl ''unknown resolution''"
    by simp
  obtain env namelist_mod p0 where su: "script_setup ''base'' start = (env, namelist_mod, p0)"
    by (cases "script_setup ''base'' start")
  have "compile bad_compile_fw (codebase_arg env None) (world p0) =
      (Some ''compilation failed'', Suc (world p0))"
    by (simp add: bad_compile_fw_def ok_fw_def)
  from init_config_raises [OF init_config_compile_raises [OF this]] su
    inst [where fw = bad_compile_fw]
  have w4: "fst (script bad_compile_fw ''base'' True [''prog''] start) = Some ''compilation failed''"
    by simp
  from script_fixture_bad_run su obtain exp' p1 where i:
    "MatsunoGillExperiment_init bad_run_fw env ''superrotation_nzforcing_q1_long'' None
         (Some 1000) (Some namelist_mod) [''resolution'' \<mapsto> RESOLUTION] p0 = (Inr exp', p1)"
    by auto
  have "run bad_run_fw exp' 1 NCORES False (str_join '' '' (drop 1 [''prog''])) (mem p1, world p1) =
      (Some ''run failed'', mem p1, Suc (world p1))"
    by (simp add: bad_run_fw_def ok_fw_def)
  with su i inst [where fw = bad_run_fw]
  have w5: "fst (script bad_run_fw ''base'' True [''prog''] start) = Some ''run failed''"
    by simp
  from w1 w2 w3 w4 w5 show ?thesis by blast
qed

lemma init_exp_name:
  assumes "MatsunoGillExperiment_init fw env name codebase output_freq namelist_mod kwargs s =
      (Inr self, s1)"
  shows "exp_name self = name"
proof -
  obtain r s0 where c:
    "MatsunoGillExperiment_init_config fw env name codebase output_freq namelist_mod s = (r, s0)"
    by (cases "MatsunoGillExperiment_init_config fw env name codebase output_freq namelist_mod s")
  show ?thesis
  proof (cases r)
    case (Inl e)
    show ?thesis using assms unfolding init_config_raises [OF c [unfolded Inl]] by simp
  next
    case (Inr self0)
    note c' = c [unfolded Inr]
    from init_config_handle [OF c'] have n: "exp_name self0 = name" by auto
    show ?thesis
    proof (cases "kwargs ''resolution''")
      case None
      show ?thesis
        using assms n unfolding init_without_resolution [where kwargs = kwargs, OF c' None]
        by simp
    next
      case (Some resolution)
      obtain r2 h2 w2 where sr:
        "set_resolution fw self0 resolution (mem s0, world s0) = (r2, h2, w2)"
        by (cases "set_resolution fw self0 resolution (mem s0, world s0)")
      show ?thesis
        using assms n unfolding init_with_resolution [where kwargs = kwargs, OF c' Some sr]
        by (auto split: option.splits)
    qed
  qed
qed

text \<open>
  C6. When the script is run as the entry point and the construction of line 159 returns,
  it makes exactly one call of \<^verbatim>\<open>run\<close>, on the experiment named
  \<^verbatim>\<open>superrotation_nzforcing_q1_long\<close>, with segment index 1, 16 cores and \<^verbatim>\<open>use_restart=False\<close>;
  \<^verbatim>\<open>mpirun_opts\<close> is the command-line arguments after the program name, each as it was given,
  in order, joined by single spaces. The result of the script is the result of that call.
\<close>

theorem script_runs_once:
  assumes "script_setup from_directory p = (env, namelist_mod, p0)"
    and "MatsunoGillExperiment_init fw env ''superrotation_nzforcing_q1_long'' None (Some 1000)
           (Some namelist_mod) [''resolution'' \<mapsto> RESOLUTION] p0 = (Inr exp', p1)"
  shows "script fw from_directory True argv p =
       call_handle
         (Run ''superrotation_nzforcing_q1_long'' 1 16 False (str_join '' '' (drop 1 argv)))
         (run fw exp' 1 16 False (str_join '' '' (drop 1 argv))) p1
     \<and> exp_name exp' = ''superrotation_nzforcing_q1_long''
     \<and> filter is_Run (new_events p (snd (script fw from_directory True argv p))) =
         [Run ''superrotation_nzforcing_q1_long'' 1 16 False (str_join '' '' (drop 1 argv))]"
proof -
  have n: "exp_name exp' = ''superrotation_nzforcing_q1_long''"
    by (rule init_exp_name [OF assms(2)])
  have r: "script fw from_directory True argv p =
       call_handle
         (Run ''superrotation_nzforcing_q1_long'' 1 16 False (str_join '' '' (drop 1 argv)))
         (run fw exp' 1 16 False (str_join '' '' (drop 1 argv))) p1"
    using script_runs [OF assms, of argv] by (simp add: n NCORES_def)
  from init_trace [of fw env "''superrotation_nzforcing_q1_long''" None "Some 1000"
      "Some namelist_mod" "[''resolution'' \<mapsto> RESOLUTION]" p0]
  obtain rest where t: "trace p1 = trace p0 @ Compile (codebase_arg env None) # rest"
    and nr: "filter is_Run rest = []"
    by (auto simp: assms(2))
  have "trace (snd (script fw from_directory True argv p)) =
      trace p @ Compile (codebase_arg env None) # rest @
        [Run ''superrotation_nzforcing_q1_long'' 1 16 False (str_join '' '' (drop 1 argv))]"
    using t script_setup_trace [OF assms(1)]
    by (simp add: r call_handle_def split: prod.splits)
  then have "filter is_Run (new_events p (snd (script fw from_directory True argv p))) =
         [Run ''superrotation_nzforcing_q1_long'' 1 16 False (str_join '' '' (drop 1 argv))]"
    using nr by (simp add: new_events_def)
  with n r show ?thesis by blast
qed

theorem script_runs_once_witness:
  "filter is_Run (new_events start
       (snd (script ok_fw ''base'' True [''prog'', ''-n'', ''4'', ''--oversubscribe''] start))) =
     [Run ''superrotation_nzforcing_q1_long'' 1 16 False ''-n 4 --oversubscribe'']
   \<and> fst (script ok_fw ''base'' True [''prog'', ''-n'', ''4'', ''--oversubscribe''] start) = None"
proof -
  from script_fixture_ok obtain env namelist_mod p0 exp' p1 where
    su: "script_setup ''base'' start = (env, namelist_mod, p0)"
    and i: "MatsunoGillExperiment_init ok_fw env ''superrotation_nzforcing_q1_long'' None
         (Some 1000) (Some namelist_mod) [''resolution'' \<mapsto> RESOLUTION] p0 = (Inr exp', p1)"
    by blast
  note r = script_runs_once [OF su i, of "[''prog'', ''-n'', ''4'', ''--oversubscribe'']"]
  from r [THEN conjunct2, THEN conjunct2] have "filter is_Run (new_events start
       (snd (script ok_fw ''base'' True [''prog'', ''-n'', ''4'', ''--oversubscribe''] start))) =
     [Run ''superrotation_nzforcing_q1_long'' 1 16 False ''-n 4 --oversubscribe'']"
    by simp
  moreover from r [THEN conjunct1]
  have "fst (script ok_fw ''base'' True [''prog'', ''-n'', ''4'', ''--oversubscribe''] start) = None"
    by (simp add: call_handle_def ok_fw_def split: prod.splits)
  ultimately show ?thesis by blast
qed

end
